theory Spec2Isabelle
  imports Complex_Main "HOL-Library.AList"
begin

section \<open>Python string operations used by the sources\<close>

text \<open>
  Strings are character lists.  The operations below are the ones the sources call on
  \<^verbatim>\<open>str\<close>: \<^verbatim>\<open>startswith\<close>, \<^verbatim>\<open>endswith\<close>, \<^verbatim>\<open>split\<close> (with and without a
  maximal number of splits), \<^verbatim>\<open>strip\<close>, \<^verbatim>\<open>join\<close> and the substring test \<^verbatim>\<open>in\<close>.
\<close>

definition startswith :: "string \<Rightarrow> string \<Rightarrow> bool" where
  "startswith s p = (take (length p) s = p)"

definition endswith :: "string \<Rightarrow> string \<Rightarrow> bool" where
  "endswith s e = (length e \<le> length s \<and> drop (length s - length e) s = e)"

fun py_split :: "char \<Rightarrow> string \<Rightarrow> string list" where
  "py_split c [] = [[]]"
| "py_split c (x # xs) =
     (if x = c then [] # py_split c xs
      else (case py_split c xs of
              [] \<Rightarrow> [[x]]
            | w # ws \<Rightarrow> (x # w) # ws))"

fun py_split_max :: "char \<Rightarrow> nat \<Rightarrow> string \<Rightarrow> string list" where
  "py_split_max c 0 s = [s]"
| "py_split_max c (Suc n) [] = [[]]"
| "py_split_max c (Suc n) (x # xs) =
     (if x = c then [] # py_split_max c n xs
      else (case py_split_max c (Suc n) xs of
              [] \<Rightarrow> [[x]]
            | w # ws \<Rightarrow> (x # w) # ws))"

definition is_space :: "char \<Rightarrow> bool" where
  "is_space c = (c \<in> set [CHR '' '', CHR 0x09, CHR 0x0A, CHR 0x0B, CHR 0x0C, CHR 0x0D,
                            CHR 0x1C, CHR 0x1D, CHR 0x1E, CHR 0x1F])"

definition py_strip :: "string \<Rightarrow> string" where
  "py_strip s = rev (dropWhile is_space (rev (dropWhile is_space s)))"

fun py_join :: "string \<Rightarrow> string list \<Rightarrow> string" where
  "py_join sep [] = []"
| "py_join sep [x] = x"
| "py_join sep (x # y # ys) = x @ sep @ py_join sep (y # ys)"

fun py_contains :: "string \<Rightarrow> string \<Rightarrow> bool" where
  "py_contains [] p = (p = [])"
| "py_contains (x # xs) p = (startswith (x # xs) p \<or> py_contains xs p)"

text \<open>Truthiness of an optional string: \<^verbatim>\<open>None\<close> and \<^verbatim>\<open>""\<close> are false.\<close>

fun truthy :: "string option \<Rightarrow> bool" where
  "truthy None = False"
| "truthy (Some s) = (s \<noteq> [])"

datatype py_error =
    ValueError | TypeError | KeyError | AttributeError | OverflowError | OSError
  | JSONDecodeError | InvokeError

section \<open>mcp\_server/tools/commit\_analyzer.py\<close>

text \<open>
  The analyzer shells out to git.  The outcome of a \<^verbatim>\<open>subprocess.check_output\<close> call is
  the text the process printed, or \<^verbatim>\<open>CalledProcessError\<close> when git exits with an error,
  or \<^verbatim>\<open>OSError\<close> when git cannot be started; what git does for a given command is an
  input of the model.  For the log command all three outcomes are modelled; for the diff
  command the model covers the runs in which git starts.
\<close>

datatype proc_result = Output string | CalledProcessError

datatype log_result = Log_output string | Log_failed | Log_not_started

record git =
  git_log :: "int \<Rightarrow> log_result"
  git_diff :: "string \<Rightarrow> string \<Rightarrow> proc_result"

record commit =
  hash :: string
  message :: string
  date :: string
  author :: string

text \<open>
  \<^verbatim>\<open>get_commit_history\<close>: the loop over the lines of \<^verbatim>\<open>result.strip().split('\n')\<close>.
  The four-way unpacking of \<^verbatim>\<open>line.split('|', 3)\<close> raises \<^verbatim>\<open>ValueError\<close> when the line
  has fewer than three bars; only \<^verbatim>\<open>CalledProcessError\<close> is caught, so that error and
  the \<^verbatim>\<open>OSError\<close> of a git that does not start leave the function.
\<close>

fun log_loop :: "string list \<Rightarrow> commit list \<Rightarrow> py_error + commit list" where
  "log_loop [] commits = Inr commits"
| "log_loop (line # rest) commits =
     (if line \<noteq> [] then
        (case py_split_max (CHR ''|'') 3 line of
           [h, m, d, a] \<Rightarrow>
             log_loop rest (commits @ [\<lparr>hash = h, message = m, date = d, author = a\<rparr>])
         | _ \<Rightarrow> Inl ValueError)
      else log_loop rest commits)"

definition get_commit_history :: "git \<Rightarrow> int \<Rightarrow> py_error + commit list" where
  "get_commit_history g max_commits =
     (case git_log g max_commits of
        Log_failed \<Rightarrow> Inr []
      | Log_not_started \<Rightarrow> Inl OSError
      | Log_output result \<Rightarrow> log_loop (py_split (CHR 0x0A) (py_strip result)) [])"

definition code_extensions :: "string list" where
  "code_extensions =
     [''.py'', ''.js'', ''.ts'', ''.java'', ''.cpp'', ''.c'', ''.cs'', ''.go'',
      ''.rb'', ''.php'', ''.swift'', ''.kt'', ''.rs'', ''.scala'', ''.r'',
      ''.jsx'', ''.tsx'', ''.vue'', ''.html'', ''.css'', ''.scss'']"

definition is_code_file :: "string \<Rightarrow> bool" where
  "is_code_file file_path = list_ex (endswith file_path) code_extensions"

text \<open>
  The dictionary \<^verbatim>\<open>changes\<close> keeps its keys in insertion order; it is an association list
  with distinct keys.  \<open>dict_append\<close> is
  \<^verbatim>\<open>if k not in changes: changes[k] = []\<close> followed by \<^verbatim>\<open>changes[k].append(line)\<close>.
\<close>

type_synonym changes = "(string \<times> string list) list"

fun dict_append :: "changes \<Rightarrow> string \<Rightarrow> string \<Rightarrow> changes" where
  "dict_append [] k line = [(k, [line])]"
| "dict_append ((k', ls) # rest) k line =
     (if k' = k then (k', ls @ [line]) # rest else (k', ls) # dict_append rest k line)"

definition is_header :: "string \<Rightarrow> bool" where
  "is_header line = (startswith line ''---'' \<or> startswith line ''+++'')"

definition is_content :: "string \<Rightarrow> bool" where
  "is_content line =
     ((startswith line ''-'' \<or> startswith line ''+'') \<and> \<not> is_header line)"

text \<open>One iteration of the loop of \<^verbatim>\<open>get_full_diff_between_commits\<close> on the state
  \<open>(changes, current_file)\<close>.\<close>

fun diff_step :: "changes \<times> string option \<Rightarrow> string \<Rightarrow> changes \<times> string option" where
  "diff_step (chs, current_file) line =
     (if startswith line ''+++ b/'' then (chs, Some (drop 6 line))
      else if is_content line then
        (case current_file of
           None \<Rightarrow> (chs, current_file)
         | Some f \<Rightarrow>
             if f \<noteq> [] \<and> is_code_file f then (dict_append chs f line, current_file)
             else (chs, current_file))
      else (chs, current_file))"

definition diff_loop :: "string list \<Rightarrow> changes \<times> string option" where
  "diff_loop ls = foldl diff_step ([], None) ls"

definition parse_diff :: "string \<Rightarrow> changes" where
  "parse_diff result = fst (diff_loop (py_split (CHR 0x0A) result))"

definition get_full_diff_between_commits :: "git \<Rightarrow> string \<Rightarrow> string \<Rightarrow> changes" where
  "get_full_diff_between_commits g old_commit new_commit =
     (case git_diff g old_commit new_commit of
        CalledProcessError \<Rightarrow> []
      | Output result \<Rightarrow> parse_diff result)"

record timeline_entry =
  entry_commit :: commit
  files_modified :: "string list"
  total_lines_deleted :: nat

record feature_loss_context =
  total_commits_analyzed :: nat
  commits_with_deletions :: nat
  deletion_timeline :: "timeline_entry list"
  oldest_commit :: "string \<times> string"
  newest_commit :: "string \<times> string"

datatype context_result = Not_enough_commits | Context feature_loss_context

text \<open>
  The dictionary comprehension of \<^verbatim>\<open>get_feature_loss_context\<close>: every key of \<^verbatim>\<open>changes\<close>
  is kept, with the lines that start with a minus sign, their first character dropped.
\<close>

definition deletions_of :: "changes \<Rightarrow> changes" where
  "deletions_of chs =
     map (\<lambda>(fp, ls). (fp, map (drop 1) (filter (\<lambda>l. startswith l ''-'') ls))) chs"

definition pair_entry :: "git \<Rightarrow> commit \<Rightarrow> commit \<Rightarrow> timeline_entry list" where
  "pair_entry g newer older =
     (let chs = get_full_diff_between_commits g (hash older) (hash newer);
          deletions = deletions_of chs
      in if deletions \<noteq> [] then
           (let code_deletions = filter (\<lambda>(k, v). is_code_file k) deletions
            in if code_deletions \<noteq> [] then
                 [\<lparr>entry_commit = newer\<lparr>hash := take 8 (hash newer)\<rparr>,
                   files_modified = map fst code_deletions,
                   total_lines_deleted = sum_list (map (\<lambda>(k, v). length v) code_deletions)\<rparr>]
               else [])
         else [])"

text \<open>The loop \<^verbatim>\<open>for i in range(len(commits) - 1)\<close> over adjacent pairs.\<close>

fun timeline_loop :: "git \<Rightarrow> commit list \<Rightarrow> timeline_entry list" where
  "timeline_loop g (newer # older # rest) =
     pair_entry g newer older @ timeline_loop g (older # rest)"
| "timeline_loop g cs = []"

definition get_feature_loss_context :: "git \<Rightarrow> int \<Rightarrow> py_error + context_result" where
  "get_feature_loss_context g max_commits =
     (case get_commit_history g max_commits of
        Inl e \<Rightarrow> Inl e
      | Inr commits \<Rightarrow>
          if length commits < 2 then Inr Not_enough_commits
          else
            (let timeline = timeline_loop g commits
             in Inr (Context
                  \<lparr>total_commits_analyzed = length commits,
                   commits_with_deletions = length timeline,
                   deletion_timeline = timeline,
                   oldest_commit = (take 8 (hash (last commits)), date (last commits)),
                   newest_commit = (take 8 (hash (hd commits)), date (hd commits))\<rparr>)))"

section \<open>agents/compliance\_agent.py\<close>

subsection \<open>Values returned by the judgment service\<close>

text \<open>
  A Python float is a finite rational, an infinity or NaN; every comparison with NaN is
  false.  \<^verbatim>\<open>min(a, b)\<close> returns \<open>b\<close> only when \<open>b < a\<close> and \<^verbatim>\<open>max(a, b)\<close> returns \<open>b\<close>
  only when \<open>b > a\<close>, so the argument order matters on NaN.
\<close>

datatype pyfloat = Fin rat | PInf | NInf | NaN

fun flt_less :: "pyfloat \<Rightarrow> pyfloat \<Rightarrow> bool" where
  "flt_less (Fin a) (Fin b) = (a < b)"
| "flt_less (Fin a) PInf = True"
| "flt_less NInf (Fin b) = True"
| "flt_less NInf PInf = True"
| "flt_less x y = False"

definition py_min :: "pyfloat \<Rightarrow> pyfloat \<Rightarrow> pyfloat" where
  "py_min a b = (if flt_less b a then b else a)"

definition py_max :: "pyfloat \<Rightarrow> pyfloat \<Rightarrow> pyfloat" where
  "py_max a b = (if flt_less a b then b else a)"

definition clamp_score :: "pyfloat \<Rightarrow> pyfloat" where
  "clamp_score x = py_max (Fin 0) (py_min (Fin 100) x)"

text \<open>What \<^verbatim>\<open>json.loads\<close> returns; an object keeps its keys in order.\<close>

datatype json =
    JNull
  | JBool bool
  | JInt int
  | JFloat pyfloat
  | JStr string
  | JList "json list"
  | JObj "(string \<times> json) list"

text \<open>
  \<^verbatim>\<open>float(v)\<close>.  The conversions of an integer (which rounds, and raises
  \<^verbatim>\<open>OverflowError\<close> on a huge one) and of a string (which raises \<^verbatim>\<open>ValueError\<close> on a
  malformed one) belong to the Python runtime and are parameters.
\<close>

record float_conv =
  float_of_int :: "int \<Rightarrow> pyfloat option"
  float_of_str :: "string \<Rightarrow> pyfloat option"

fun py_float :: "float_conv \<Rightarrow> json \<Rightarrow> py_error + pyfloat" where
  "py_float fc JNull = Inl TypeError"
| "py_float fc (JBool b) = Inr (Fin (if b then 1 else 0))"
| "py_float fc (JInt n) =
     (case float_of_int fc n of None \<Rightarrow> Inl OverflowError | Some x \<Rightarrow> Inr x)"
| "py_float fc (JFloat x) = Inr x"
| "py_float fc (JStr s) =
     (case float_of_str fc s of None \<Rightarrow> Inl ValueError | Some x \<Rightarrow> Inr x)"
| "py_float fc (JList xs) = Inl TypeError"
| "py_float fc (JObj kvs) = Inl TypeError"

text \<open>\<^verbatim>\<open>key in data\<close>, \<^verbatim>\<open>data[key]\<close> and \<^verbatim>\<open>data[key] = v\<close> for a string key, on whatever
  value the response parsed to.\<close>

fun py_in :: "string \<Rightarrow> json \<Rightarrow> py_error + bool" where
  "py_in k (JObj kvs) = Inr (map_of kvs k \<noteq> None)"
| "py_in k (JList xs) = Inr (JStr k \<in> set xs)"
| "py_in k (JStr s) = Inr (py_contains s k)"
| "py_in k v = Inl TypeError"

fun py_getitem :: "string \<Rightarrow> json \<Rightarrow> py_error + json" where
  "py_getitem k (JObj kvs) = (case map_of kvs k of None \<Rightarrow> Inl KeyError | Some v \<Rightarrow> Inr v)"
| "py_getitem k v = Inl TypeError"

fun py_setitem :: "string \<Rightarrow> json \<Rightarrow> json \<Rightarrow> py_error + json" where
  "py_setitem k v (JObj kvs) = Inr (JObj (AList.update k v kvs))"
| "py_setitem k v d = Inl TypeError"

definition json_get :: "json \<Rightarrow> string \<Rightarrow> json option" where
  "json_get d k = (case d of JObj kvs \<Rightarrow> map_of kvs k | _ \<Rightarrow> None)"

text \<open>
  The block under ``Ensure score is within [0, 100]'': the inner \<^verbatim>\<open>try\<close> with its bare
  \<^verbatim>\<open>except\<close>, whose handler assigns \<^verbatim>\<open>0.0\<close> and can raise itself.
\<close>

definition clamp_field :: "float_conv \<Rightarrow> string \<Rightarrow> json \<Rightarrow> py_error + json" where
  "clamp_field fc key data =
     (case py_in key data of
        Inl e \<Rightarrow> Inl e
      | Inr False \<Rightarrow> Inr data
      | Inr True \<Rightarrow>
          (case (case py_getitem key data of
                   Inl e \<Rightarrow> Inl e
                 | Inr v \<Rightarrow>
                     (case py_float fc v of
                        Inl e \<Rightarrow> Inl e
                      | Inr x \<Rightarrow> py_setitem key (JFloat (clamp_score x)) data)) of
             Inr d \<Rightarrow> Inr d
           | Inl e \<Rightarrow> py_setitem key (JFloat (Fin 0)) data))"

text \<open>
  The judgment service is opaque.  Its outcome is an input: the call raised, or the
  cleaned content did not parse (\<^verbatim>\<open>json.loads\<close> raised), or it parsed to a value.
\<close>

datatype llm_response = Invoke_raised | Not_json | Parsed json

fun str_error :: "py_error \<Rightarrow> string" where
  "str_error ValueError = ''ValueError''"
| "str_error TypeError = ''TypeError''"
| "str_error KeyError = ''KeyError''"
| "str_error AttributeError = ''AttributeError''"
| "str_error OSError = ''OSError''"
| "str_error OverflowError = ''OverflowError''"
| "str_error JSONDecodeError = ''JSONDecodeError''"
| "str_error InvokeError = ''InvokeError''"

definition response_data :: "llm_response \<Rightarrow> py_error + json" where
  "response_data resp =
     (case resp of
        Invoke_raised \<Rightarrow> Inl InvokeError
      | Not_json \<Rightarrow> Inl JSONDecodeError
      | Parsed data \<Rightarrow> Inr data)"

text \<open>The dictionary the handler \<^verbatim>\<open>except Exception as e\<close> of \<^verbatim>\<open>unified_analysis\<close>
  returns.\<close>

definition unified_failure :: "py_error \<Rightarrow> json" where
  "unified_failure e =
     JObj [(''error'', JStr (str_error e)),
           (''score'', JInt 0),
           (''issues'', JList []),
           (''summary'', JStr (''Unified analysis failed: '' @ str_error e))]"

definition unified_analysis :: "float_conv \<Rightarrow> llm_response \<Rightarrow> json" where
  "unified_analysis fc resp =
     (case (case response_data resp of
              Inl e \<Rightarrow> Inl e
            | Inr data \<Rightarrow> clamp_field fc ''score'' data) of
        Inr data \<Rightarrow> data
      | Inl e \<Rightarrow> unified_failure e)"

subsection \<open>The commit range of the history analysis\<close>

text \<open>\<^verbatim>\<open>if not x: x = d\<close> for an optional string \<open>x\<close>.\<close>

fun or_default :: "string option \<Rightarrow> string \<Rightarrow> string" where
  "or_default None d = d"
| "or_default (Some s) d = (if s = [] then d else s)"

text \<open>
  ``Determine commit range'' in \<^verbatim>\<open>analyze_feature_loss_with_history\<close>, run once the
  history is known to hold two commits or more: the pair \<open>(base_commit, head_commit)\<close>.
\<close>

definition commit_range :: "commit list \<Rightarrow> string option \<Rightarrow> string option \<Rightarrow> string \<times> string" where
  "commit_range commit_history base_commit head_commit =
     (let head = or_default head_commit (hash (commit_history ! 0));
          base = or_default base_commit (hash (last commit_history))
      in (base, head))"

text \<open>The dictionary the handler \<^verbatim>\<open>except Exception as e\<close> of
  \<^verbatim>\<open>analyze_feature_loss_with_history\<close> returns.\<close>

definition history_failure :: "py_error \<Rightarrow> json" where
  "history_failure e =
     JObj [(''error'', JStr (str_error e)),
           (''feature_loss_score'', JInt 0),
           (''feature_changes'', JList []),
           (''summary'', JStr (''Feature history analysis failed: '' @ str_error e))]"

text \<open>The \<^verbatim>\<open>try\<close> statement of \<^verbatim>\<open>analyze_feature_loss_with_history\<close>, with the metadata
  it adds to the result.\<close>

definition history_try :: "float_conv \<Rightarrow> llm_response \<Rightarrow> json \<Rightarrow> json" where
  "history_try fc resp metadata =
     (case (case response_data resp of
              Inl e \<Rightarrow> Inl e
            | Inr result \<Rightarrow>
                (case clamp_field fc ''feature_loss_score'' result of
                   Inl e \<Rightarrow> Inl e
                 | Inr r \<Rightarrow> py_setitem ''analysis_metadata'' metadata r)) of
        Inr r \<Rightarrow> r
      | Inl e \<Rightarrow> history_failure e)"

definition analyze_feature_loss_with_history ::
  "git \<Rightarrow> float_conv \<Rightarrow> string \<Rightarrow> string option \<Rightarrow> string option \<Rightarrow> llm_response \<Rightarrow> string
     \<Rightarrow> py_error + json" where
  "analyze_feature_loss_with_history g fc repo_path base_commit head_commit resp now =
     (case get_commit_history g 50 of
        Inl e \<Rightarrow> Inl e
      | Inr commit_history \<Rightarrow>
          if length commit_history < 2 then
            Inr (JObj [(''error'', JStr ''Not enough commit history to analyze feature loss''),
                       (''score'', JInt 0)])
          else
            (let (base, head) = commit_range commit_history base_commit head_commit;
                 full_diff = get_full_diff_between_commits g base head
             in case get_feature_loss_context g 50 of
                  Inl e \<Rightarrow> Inl e
                | Inr history_context \<Rightarrow>
                    Inr (history_try fc resp
                           (JObj [(''repo_path'', JStr repo_path),
                                  (''total_commits'', JInt (int (length commit_history))),
                                  (''base_commit'', JStr base),
                                  (''head_commit'', JStr head),
                                  (''analysis_date'', JStr now)]))))"

subsection \<open>The context summarizer\<close>

text \<open>
  The working tree as \<^verbatim>\<open>os.walk\<close> sees it: a directory lists its subdirectories and its
  files.  \<open>fsize\<close> is \<^verbatim>\<open>os.path.getsize\<close> and \<open>flines\<close> is \<^verbatim>\<open>readlines()\<close>; either is
  \<open>None\<close> when the call raises.
\<close>

record tree_file =
  fname :: string
  fsize :: "nat option"
  flines :: "string list option"

datatype dirtree = Dir string "dirtree list" "tree_file list"

fun dname :: "dirtree \<Rightarrow> string" where
  "dname (Dir n subs fs) = n"

definition ignore_dirs :: "string list" where
  "ignore_dirs = [''.git'', ''node_modules'', ''__pycache__'', ''build'', ''dist'', ''.next'',
                  ''.venv'', ''venv'', ''env'', ''.idea'', ''.vscode'']"














section \<open>history\_manager.py\<close>

record entry =
  timestamp :: string
  entry_type :: string
  score :: json
  summary :: string
  last_commit_hash :: "string option"

text \<open>
  The backing file is absent, or cannot be read or parsed (\<^verbatim>\<open>open\<close> or \<^verbatim>\<open>json.load\<close>
  raises), or holds a mapping from repository to its list of entries (a dictionary, in
  key order, the shape \<^verbatim>\<open>save_analysis\<close> writes), or parses to a JSON value that is not a
  mapping: a list, a string, a number, a boolean or null.  \<open>writes\<close> counts the times
  the file was opened for writing.
\<close>

type_synonym history = "(string \<times> entry list) list"

datatype other_json =
    Json_list "json list"
  | Json_str string
  | Json_int int
  | Json_float pyfloat
  | Json_bool bool
  | Json_null

datatype backing = Absent | Corrupt | Stored history | Stored_other other_json

record history_file =
  contents :: backing
  writes :: nat

text \<open>What \<^verbatim>\<open>load_all_history\<close> returns: \<^verbatim>\<open>{}\<close> for an absent file and after any
  exception, and otherwise whatever \<^verbatim>\<open>json.load\<close> gives.\<close>

datatype loaded = Mapping history | Other other_json

definition load_all_history :: "history_file \<Rightarrow> loaded" where
  "load_all_history hf =
     (case contents hf of
        Absent \<Rightarrow> Mapping []
      | Corrupt \<Rightarrow> Mapping []
      | Stored h \<Rightarrow> Mapping h
      | Stored_other v \<Rightarrow> Other v)"

definition dump_history :: "history_file \<Rightarrow> history \<Rightarrow> history_file" where
  "dump_history hf h = \<lparr>contents = Stored h, writes = Suc (writes hf)\<rparr>"

text \<open>\<^verbatim>\<open>repo_url in history\<close> on a value that is not a mapping: membership in a list, the
  substring test on a string, \<^verbatim>\<open>TypeError\<close> on the rest.\<close>

fun other_in :: "string \<Rightarrow> other_json \<Rightarrow> py_error + bool" where
  "other_in k (Json_list xs) = Inr (JStr k \<in> set xs)"
| "other_in k (Json_str s) = Inr (py_contains s k)"
| "other_in k v = Inl TypeError"

text \<open>
  \<^verbatim>\<open>save_analysis\<close>.  On a mapping it updates the list of the repository and rewrites
  the file.  On another value the test \<^verbatim>\<open>repo_url not in history\<close> raises or is followed
  by a subscript on a list or a string with a string key, which raises \<^verbatim>\<open>TypeError\<close>
  before the file is opened for writing.
\<close>

definition save_analysis ::
  "history_file \<Rightarrow> string \<Rightarrow> string \<Rightarrow> json \<Rightarrow> string \<Rightarrow> string option \<Rightarrow> string
     \<Rightarrow> py_error + history_file" where
  "save_analysis hf repo_url analysis_type sc summ last_hash now =
     (case load_all_history hf of
        Mapping history \<Rightarrow>
          (let e = \<lparr>timestamp = now, entry_type = analysis_type, score = sc, summary = summ,
                    last_commit_hash = last_hash\<rparr>;
               history1 = (if map_of history repo_url = None
                           then AList.update repo_url [] history else history);
               history2 = AList.map_entry repo_url (\<lambda>es. e # es) history1;
               history3 = AList.map_entry repo_url (take 10) history2
           in Inr (dump_history hf history3))
      | Other v \<Rightarrow>
          (case other_in repo_url v of
             Inl err \<Rightarrow> Inl err
           | Inr present \<Rightarrow> Inl TypeError))"

text \<open>\<^verbatim>\<open>get_repo_history\<close>: only a dictionary has the method \<^verbatim>\<open>get\<close>.\<close>

definition get_repo_history :: "history_file \<Rightarrow> string \<Rightarrow> py_error + entry list" where
  "get_repo_history hf repo_url =
     (case load_all_history hf of
        Mapping history \<Rightarrow>
          Inr (case map_of history repo_url of None \<Rightarrow> [] | Some es \<Rightarrow> es)
      | Other v \<Rightarrow> Inl AttributeError)"

text \<open>\<^verbatim>\<open>clear_repo_history\<close>; on a list or a string that holds the key, \<^verbatim>\<open>del\<close> raises
  \<^verbatim>\<open>TypeError\<close>.\<close>

definition clear_repo_history ::
  "history_file \<Rightarrow> string \<Rightarrow> py_error + history_file \<times> bool" where
  "clear_repo_history hf repo_url =
     (case load_all_history hf of
        Mapping history \<Rightarrow>
          Inr (if map_of history repo_url \<noteq> None
               then (dump_history hf (AList.delete repo_url history), True)
               else (hf, False))
      | Other v \<Rightarrow>
          (case other_in repo_url v of
             Inl err \<Rightarrow> Inl err
           | Inr present \<Rightarrow> if present then Inl TypeError else Inr (hf, False)))"

text \<open>A run of store operations, for statements about every sequence of calls; it stops
  at the first call that raises.\<close>

datatype store_op =
    Save string string json string "string option" string
  | Clear string

fun apply_op :: "history_file \<Rightarrow> store_op \<Rightarrow> py_error + history_file" where
  "apply_op hf (Save repo_url analysis_type sc summ last_hash now) =
     save_analysis hf repo_url analysis_type sc summ last_hash now"
| "apply_op hf (Clear repo_url) =
     (case clear_repo_history hf repo_url of
        Inl err \<Rightarrow> Inl err
      | Inr (hf', existed) \<Rightarrow> Inr hf')"

fun run_ops :: "history_file \<Rightarrow> store_op list \<Rightarrow> py_error + history_file" where
  "run_ops hf [] = Inr hf"
| "run_ops hf (x # xs) =
     (case apply_op hf x of
        Inl err \<Rightarrow> Inl err
      | Inr hf' \<Rightarrow> run_ops hf' xs)"

section \<open>Range selection in ci\_gate.py and app.py\<close>

text \<open>The scan \<^verbatim>\<open>for entry in repo_history\<close> that stops at the first entry whose
  \<^verbatim>\<open>last_commit_hash\<close> is truthy.\<close>

fun scan_history :: "entry list \<Rightarrow> string option" where
  "scan_history [] = None"
| "scan_history (e # es) =
     (if truthy (last_commit_hash e) then last_commit_hash e else scan_history es)"

definition last_analyzed_commit :: "entry list \<Rightarrow> string option" where
  "last_analyzed_commit repo_history =
     (if repo_history \<noteq> [] then scan_history repo_history else None)"

text \<open>
  \<^verbatim>\<open>app.py\<close> prefers the hashes the caller selected:
  \<^verbatim>\<open>final_base = base_commit_hash if base_commit_hash else last_analyzed_commit\<close> and
  \<^verbatim>\<open>final_head = head_commit_hash if head_commit_hash else None\<close>.  \<^verbatim>\<open>ci_gate.py\<close> passes
  \<^verbatim>\<open>base_commit=last_analyzed_commit\<close> and no head, which is the same with nothing
  selected.  The analysis answers ``not enough history'' below two commits.
\<close>

definition select_range ::
  "entry list \<Rightarrow> commit list \<Rightarrow> string option \<Rightarrow> string option \<Rightarrow> (string \<times> string) option" where
  "select_range repo_history available_commits base_commit_hash head_commit_hash =
     (let final_base = (if truthy base_commit_hash then base_commit_hash
                        else last_analyzed_commit repo_history);
          final_head = (if truthy head_commit_hash then head_commit_hash else None)
      in if length available_commits < 2 then None
         else Some (commit_range available_commits final_base final_head))"

text \<open>The call in \<^verbatim>\<open>ci_gate.py\<close>: the base is the last analyzed commit and no head is
  passed.\<close>

definition gate_range :: "entry list \<Rightarrow> commit list \<Rightarrow> (string \<times> string) option" where
  "gate_range repo_history available_commits =
     (if length available_commits < 2 then None
      else Some (commit_range available_commits (last_analyzed_commit repo_history) None))"

section \<open>Concrete inputs\<close>

text \<open>
  A workspace with three commits, newest first: the oldest creates \<^verbatim>\<open>a.py\<close>, the middle
  one deletes two lines of it, the newest adds the file \<^verbatim>\<open>b.py\<close>.  The texts are what
  \<^verbatim>\<open>git log\<close> and \<^verbatim>\<open>git diff --unified=0\<close> print for it; \<^verbatim>\<open>--max-count=n\<close> limits
  the log to \<open>n\<close> commits, and a negative \<open>n\<close> does not limit it.
\<close>

definition scen_log_lines :: "string list" where
  "scen_log_lines =
     [''c3c3c3c3c3c3|add b.py|2024-01-03 10:00:00 +0000|dev'',
      ''c2c2c2c2c2c2|trim a.py|2024-01-02 10:00:00 +0000|dev'',
      ''c1c1c1c1c1c1|initial|2024-01-01 10:00:00 +0000|dev'']"


definition scen_diff32 :: string where
  "scen_diff32 = py_join [CHR 0x0A]
     [''diff --git a/b.py b/b.py'', ''new file mode 100644'', ''index 0000000..7b4d68d'',
      ''--- /dev/null'', ''+++ b/b.py'', ''@@ -0,0 +1 @@'', ''+print(1)'', '''']"

definition scen_diff21 :: string where
  "scen_diff21 = py_join [CHR 0x0A]
     [''diff --git a/a.py b/a.py'', ''index 83db48f..bf269f4 100644'',
      ''--- a/a.py'', ''+++ b/a.py'', ''@@ -2,2 +1,0 @@'', ''-x = 1'', ''-y = 2'', '''']"

definition scen_git :: git where
  "scen_git =
     \<lparr>git_log = (\<lambda>n. Log_output (py_join [CHR 0x0A]
                   (if n < 0 then scen_log_lines else take (nat n) scen_log_lines))),
      git_diff = (\<lambda>old new.
        if old = ''c2c2c2c2c2c2'' \<and> new = ''c3c3c3c3c3c3'' then Output scen_diff32
        else if old = ''c1c1c1c1c1c1'' \<and> new = ''c2c2c2c2c2c2'' then Output scen_diff21
        else CalledProcessError)\<rparr>"

text \<open>A conversion to float that is exact on integers and accepts no string.\<close>

definition exact_conv :: float_conv where
  "exact_conv = \<lparr>float_of_int = (\<lambda>n. Some (Fin (of_int n))), float_of_str = (\<lambda>s. None)\<rparr>"

definition empty_file :: history_file where
  "empty_file = \<lparr>contents = Absent, writes = 0\<rparr>"




text \<open>
  A working tree: \<^verbatim>\<open>README.md\<close> at the top, a \<^verbatim>\<open>.git\<close> directory, and \<^verbatim>\<open>src\<close> with a
  small source file, an image, a source file of 200000 bytes and a \<^verbatim>\<open>node_modules\<close>
  directory.
\<close>

definition a_py :: tree_file where
  "a_py = \<lparr>fname = ''a.py'', fsize = Some 12,
           flines = Some [''x = 1'' @ [CHR 0x0A], ''y = 2'' @ [CHR 0x0A]]\<rparr>"

definition readme :: tree_file where
  "readme = \<lparr>fname = ''README.md'', fsize = Some 3, flines = Some [''hi'' @ [CHR 0x0A]]\<rparr>"

definition lib_js :: tree_file where
  "lib_js = \<lparr>fname = ''lib.js'', fsize = Some 9, flines = Some [''var x;'' @ [CHR 0x0A]]\<rparr>"

definition scen_tree :: dirtree where
  "scen_tree =
     Dir ''w''
       [Dir ''.git'' [] [\<lparr>fname = ''HEAD'', fsize = Some 21, flines = Some [''ref: refs/heads/main'']\<rparr>],
        Dir ''src'' [Dir ''node_modules'' [] [lib_js]]
          [a_py,
           \<lparr>fname = ''logo.png'', fsize = Some 900, flines = None\<rparr>,
           \<lparr>fname = ''big.py'', fsize = Some 200000, flines = Some []\<rparr>]]
       [readme]"


text \<open>Thirteen calls of \<^verbatim>\<open>save_analysis\<close> on an absent file, twelve of them for
  \<^verbatim>\<open>repo\<close>; and a store that holds entries of two repositories, as two calls of
  \<^verbatim>\<open>save_analysis\<close> on an absent file leave it.\<close>

definition thirteen_saves :: "store_op list" where
  "thirteen_saves =
     map (\<lambda>(repo_url, now). Save repo_url ''Unified'' (JInt 80) ''done'' None now)
       [(''repo'', ''t00''), (''repo'', ''t01''), (''repo'', ''t02''), (''repo'', ''t03''),
        (''repo'', ''t04''), (''other'', ''t05''), (''repo'', ''t06''), (''repo'', ''t07''),
        (''repo'', ''t08''), (''repo'', ''t09''), (''repo'', ''t10''), (''repo'', ''t11''),
        (''repo'', ''t12'')]"

definition first_audit :: entry where
  "first_audit = \<lparr>timestamp = ''2024-01-01'', entry_type = ''Unified'', score = JInt 90,
                   summary = ''first'', last_commit_hash = Some ''c1c1c1c1c1c1''\<rparr>"

definition second_audit :: entry where
  "second_audit = \<lparr>timestamp = ''2024-01-02'', entry_type = ''Unified'', score = JInt 70,
                    summary = ''second'', last_commit_hash = None\<rparr>"

definition two_repos :: history_file where
  "two_repos =
     \<lparr>contents = Stored [(''repo'', [first_audit]), (''other'', [second_audit])], writes = 2\<rparr>"

text \<open>A file in which one repository is a key with an empty list, and a file that holds
  the JSON list \<^verbatim>\<open>[]\<close>.\<close>

definition empty_list_repo :: history_file where
  "empty_list_repo =
     \<lparr>contents = Stored [(''repo'', []), (''other'', [second_audit])], writes = 0\<rparr>"

definition list_file :: history_file where
  "list_file = \<lparr>contents = Stored_other (Json_list []), writes = 0\<rparr>"

text \<open>Five available commits, newest first, and a history whose newest entry carries no
  commit hash.\<close>

definition five_commits :: "commit list" where
  "five_commits =
     map (\<lambda>h. \<lparr>hash = h, message = ''change'', date = ''2024-01-01'', author = ''dev''\<rparr>)
       [''e5e5e5e5e5'', ''d4d4d4d4d4'', ''c3c3c3c3c3'', ''b2b2b2b2b2'', ''a1a1a1a1a1'']"

definition past_audits :: "entry list" where
  "past_audits =
     [\<lparr>timestamp = ''2024-01-03'', entry_type = ''Unified'', score = JInt 0,
        summary = ''failed'', last_commit_hash = None\<rparr>,
      \<lparr>timestamp = ''2024-01-02'', entry_type = ''Unified'', score = JInt 80,
        summary = ''done'', last_commit_hash = Some ''c3c3c3c3c3''\<rparr>,
      \<lparr>timestamp = ''2024-01-01'', entry_type = ''Unified'', score = JInt 70,
        summary = ''done'', last_commit_hash = Some ''a1a1a1a1a1''\<rparr>]"






section \<open>Notions used to state the properties\<close>







text \<open>A score that lies between 0 and 100: a finite float or an integer in that range.\<close>

fun score_ok :: "json \<Rightarrow> bool" where
  "score_ok (JInt n) = (0 \<le> n \<and> n \<le> 100)"
| "score_ok (JFloat (Fin q)) = (0 \<le> q \<and> q \<le> 100)"
| "score_ok v = False"



text \<open>
  The tree with every ignored directory cut out, at every depth, together with all that
  lies below it; the plain top-down walk that prunes nothing; and the names of all
  directories below the top of a tree.
\<close>

fun prune :: "dirtree \<Rightarrow> dirtree" where
  "prune (Dir n subs fs) =
     Dir n (map prune (filter (\<lambda>d. dname d \<notin> set ignore_dirs) subs)) fs"




text \<open>The entries that the \<^verbatim>\<open>save_analysis\<close> calls of a run append for one repository, in
  the order of the calls.\<close>

fun is_save :: "store_op \<Rightarrow> bool" where
  "is_save (Save repo_url analysis_type sc summ last_hash now) = True"
| "is_save (Clear repo_url) = False"

fun saved_entries :: "string \<Rightarrow> store_op list \<Rightarrow> entry list" where
  "saved_entries r [] = []"
| "saved_entries r (Save repo_url analysis_type sc summ last_hash now # ops) =
     (if repo_url = r
      then \<lparr>timestamp = now, entry_type = analysis_type, score = sc, summary = summ,
            last_commit_hash = last_hash\<rparr> # saved_entries r ops
      else saved_entries r ops)"
| "saved_entries r (Clear repo_url # ops) = saved_entries r ops"

text \<open>A backing file in which nothing was stored yet.\<close>

definition fresh :: "history_file \<Rightarrow> bool" where
  "fresh hf = (contents hf = Absent \<or> contents hf = Corrupt \<or> contents hf = Stored [])"

section \<open>The diff extractor\<close>

subsection \<open>The keys of the result are code files\<close>

lemma dict_append_keys:
  "fst ` set (dict_append chs k l) = insert k (fst ` set chs)"
  by (induction chs k l rule: dict_append.induct) auto

lemma diff_step_keys:
  assumes "\<And>k. k \<in> fst ` set chs \<Longrightarrow> is_code_file k"
    and "k \<in> fst ` set (fst (diff_step (chs, cur) line))"
  shows "is_code_file k"
proof (cases "\<not> startswith line ''+++ b/'' \<and> is_content line \<and>
              (\<exists>f. cur = Some f \<and> f \<noteq> [] \<and> is_code_file f)")
  case True
  then obtain f where f: "cur = Some f" "f \<noteq> []" "is_code_file f" by blast
  with True have "fst (diff_step (chs, cur) line) = dict_append chs f line" by simp
  with assms(2) have "k \<in> insert f (fst ` set chs)" by (simp only: dict_append_keys)
  with assms(1) f(3) show ?thesis by blast
next
  case False
  then have "fst (diff_step (chs, cur) line) = chs"
    by (auto split: option.splits)
  with assms show ?thesis by simp
qed

lemma foldl_diff_step_keys:
  assumes "\<And>k. k \<in> fst ` set (fst st) \<Longrightarrow> is_code_file k"
    and "k \<in> fst ` set (fst (foldl diff_step st ls))"
  shows "is_code_file k"
  using assms
proof (induction ls arbitrary: st)
  case Nil
  then show ?case by simp
next
  case (Cons l ls)
  obtain chs cur where st: "st = (chs, cur)" by (cases st)
  have step: "\<And>k. k \<in> fst ` set (fst (diff_step st l)) \<Longrightarrow> is_code_file k"
    using Cons.prems(1) diff_step_keys[of chs _ cur l] unfolding st fst_conv by blast
  from Cons.prems(2) have "k \<in> fst ` set (fst (foldl diff_step (diff_step st l) ls))"
    by simp
  with Cons.IH[of "diff_step st l"] step show ?case by blast
qed

lemma parse_diff_keys:
  assumes "k \<in> fst ` set (parse_diff d)"
  shows "is_code_file k"
proof -
  have "\<And>k. k \<in> fst ` set (fst (([], None) :: changes \<times> string option)) \<Longrightarrow> is_code_file k"
    by simp
  moreover from assms
  have "k \<in> fst ` set (fst (foldl diff_step ([], None) (py_split (CHR 0x0A) d)))"
    by (simp only: parse_diff_def diff_loop_def)
  ultimately show ?thesis by (rule foldl_diff_step_keys)
qed

lemma is_code_file_iff: "is_code_file p \<longleftrightarrow> (\<exists>ext \<in> set code_extensions. endswith p ext)"
  by (simp add: is_code_file_def list_ex_iff)

lemma full_diff_keys:
  assumes "p \<in> fst ` set (get_full_diff_between_commits g old_commit new_commit)"
  shows "is_code_file p"
proof (cases "git_diff g old_commit new_commit")
  case (Output result)
  with assms have "p \<in> fst ` set (parse_diff result)"
    by (simp add: get_full_diff_between_commits_def)
  then show ?thesis by (rule parse_diff_keys)
next
  case CalledProcessError
  with assms show ?thesis by (simp add: get_full_diff_between_commits_def)
qed

text \<open>
  C7.  Every path that is a key of the mapping \<^verbatim>\<open>get_full_diff_between_commits\<close> returns,
  for any two commit references and whatever git prints, ends with one of the recognized
  extensions; \<^verbatim>\<open>.html\<close> and \<^verbatim>\<open>.css\<close> are among them.  A path with no recognized
  extension is therefore never a key.
\<close>

theorem diff_keys_are_code_files:
  "(\<forall>p \<in> fst ` set (get_full_diff_between_commits g old_commit new_commit).
      \<exists>ext \<in> set code_extensions. endswith p ext)
   \<and> ''.html'' \<in> set code_extensions \<and> ''.css'' \<in> set code_extensions"
proof -
  have "\<forall>p \<in> fst ` set (get_full_diff_between_commits g old_commit new_commit).
      \<exists>ext \<in> set code_extensions. endswith p ext"
    using full_diff_keys is_code_file_iff by blast
  moreover have "''.html'' \<in> set code_extensions" "''.css'' \<in> set code_extensions"
    by (simp_all add: code_extensions_def)
  ultimately show ?thesis by blast
qed

lemma scen_diff21_eval:
  "get_full_diff_between_commits scen_git ''c1c1c1c1c1c1'' ''c2c2c2c2c2c2'' =
     [(''a.py'', [''-x = 1'', ''-y = 2''])]"
  by code_simp

theorem diff_keys_are_code_files_witness:
  "''a.py'' \<in> fst ` set (get_full_diff_between_commits scen_git ''c1c1c1c1c1c1'' ''c2c2c2c2c2c2'')
   \<and> (\<exists>ext \<in> set code_extensions. endswith ''a.py'' ext)"
proof -
  have "''a.py'' \<in> fst ` set (get_full_diff_between_commits scen_git ''c1c1c1c1c1c1'' ''c2c2c2c2c2c2'')"
    by (simp add: scen_diff21_eval)
  with diff_keys_are_code_files[of scen_git "''c1c1c1c1c1c1''" "''c2c2c2c2c2c2''"]
  show ?thesis by blast
qed

subsection \<open>Which lines are stored\<close>



























subsection \<open>The deletion timeline on the three-commit workspace\<close>

text \<open>
  C1.  On the workspace with commits C3, C2, C1 (newest first), where C2 deletes two lines
  of \<^verbatim>\<open>a.py\<close> and C3 only adds \<^verbatim>\<open>b.py\<close>, \<^verbatim>\<open>get_feature_loss_context\<close> returns a
  timeline of two entries: one for C3 with no deleted line, and the one for C2.
\<close>

theorem feature_loss_context_scenario:
  "get_feature_loss_context scen_git 20 =
     Inr (Context
       \<lparr>total_commits_analyzed = 3, commits_with_deletions = 2,
        deletion_timeline =
          [\<lparr>entry_commit =
              \<lparr>hash = ''c3c3c3c3'', message = ''add b.py'',
               date = ''2024-01-03 10:00:00 +0000'', author = ''dev''\<rparr>,
            files_modified = [''b.py''], total_lines_deleted = 0\<rparr>,
           \<lparr>entry_commit =
              \<lparr>hash = ''c2c2c2c2'', message = ''trim a.py'',
               date = ''2024-01-02 10:00:00 +0000'', author = ''dev''\<rparr>,
            files_modified = [''a.py''], total_lines_deleted = 2\<rparr>],
        oldest_commit = (''c1c1c1c1'', ''2024-01-01 10:00:00 +0000''),
        newest_commit = (''c3c3c3c3'', ''2024-01-03 10:00:00 +0000'')\<rparr>)"
  by code_simp

section \<open>The commit history reader\<close>







lemma py_split_Nil: "py_split c [] = [[]]"
  by simp









section \<open>Scores returned by the agent\<close>

lemma clamp_score_range: "\<exists>q. clamp_score x = Fin q \<and> 0 \<le> q \<and> q \<le> 100"
  by (cases x) (auto simp: clamp_score_def py_min_def py_max_def)

lemma score_ok_clamp: "score_ok (JFloat (clamp_score x))"
  using clamp_score_range[of x] by auto

lemma json_get_setitem_same:
  "py_setitem k v d = Inr d' \<Longrightarrow> json_get d' k = Some v"
  by (cases d) (auto simp: json_get_def update_conv')

lemma json_get_setitem_other:
  "py_setitem k v d = Inr d' \<Longrightarrow> k' \<noteq> k \<Longrightarrow> json_get d' k' = json_get d k'"
  by (cases d) (auto simp: json_get_def update_conv')

lemma py_in_False_get: "py_in k d = Inr False \<Longrightarrow> json_get d k = None"
  by (cases d) (auto simp: json_get_def)

lemma clamp_field_cases:
  assumes "clamp_field fc key data = Inr d"
  shows "(d = data \<and> json_get data key = None)
         \<or> (\<exists>x. py_setitem key (JFloat (clamp_score x)) data = Inr d)
         \<or> py_setitem key (JFloat (Fin 0)) data = Inr d"
proof (cases "py_in key data")
  case (Inl e)
  with assms show ?thesis by (simp add: clamp_field_def)
next
  case (Inr b)
  show ?thesis
  proof (cases b)
    case False
    with Inr assms py_in_False_get[of key data] show ?thesis
      by (simp add: clamp_field_def)
  next
    case True
    with Inr assms show ?thesis
      by (auto simp: clamp_field_def split: sum.splits)
  qed
qed

lemma clamp_field_score_ok:
  assumes "clamp_field fc key data = Inr d" "json_get d key = Some v"
  shows "score_ok v"
proof -
  from clamp_field_cases[OF assms(1)]
  consider "d = data \<and> json_get data key = None"
    | x where "py_setitem key (JFloat (clamp_score x)) data = Inr d"
    | "py_setitem key (JFloat (Fin 0)) data = Inr d" by blast
  then show ?thesis
  proof cases
    case 1
    with assms(2) show ?thesis by simp
  next
    case (2 x)
    from json_get_setitem_same[OF this] assms(2) show ?thesis
      using score_ok_clamp[of x] by simp
  next
    case 3
    from json_get_setitem_same[OF this] assms(2) show ?thesis by auto
  qed
qed

lemma unified_score_ok:
  assumes "json_get (unified_analysis fc resp) ''score'' = Some v"
  shows "score_ok v"
proof (cases "response_data resp")
  case (Inl e)
  with assms show ?thesis by (auto simp: unified_analysis_def unified_failure_def json_get_def)
next
  case (Inr data)
  show ?thesis
  proof (cases "clamp_field fc ''score'' data")
    case (Inl e)
    with Inr assms show ?thesis
      by (auto simp: unified_analysis_def unified_failure_def json_get_def)
  next
    case r: (Inr d)
    with Inr assms have "json_get d ''score'' = Some v" by (simp add: unified_analysis_def)
    with r show ?thesis by (rule clamp_field_score_ok)
  qed
qed

lemma unified_not_json:
  "resp = Not_json \<or> resp = Invoke_raised \<Longrightarrow>
   json_get (unified_analysis fc resp) ''score'' = Some (JInt 0)
   \<and> json_get (unified_analysis fc resp) ''issues'' = Some (JList [])"
  by (auto simp: unified_analysis_def unified_failure_def response_data_def json_get_def)

lemma history_failure_score:
  "json_get (history_failure e) ''feature_loss_score'' = Some (JInt 0)
   \<and> json_get (history_failure e) ''feature_changes'' = Some (JList [])"
  by (simp add: history_failure_def json_get_def)

lemma history_try_score_ok:
  assumes g: "json_get (history_try fc resp meta) ''feature_loss_score'' = Some v"
  shows "score_ok v"
proof (cases "response_data resp")
  case (Inl e)
  with g history_failure_score[of e] show ?thesis by (auto simp: history_try_def)
next
  case (Inr result)
  show ?thesis
  proof (cases "clamp_field fc ''feature_loss_score'' result")
    case (Inl e)
    with Inr g history_failure_score[of e] show ?thesis by (auto simp: history_try_def)
  next
    case c: (Inr d)
    show ?thesis
    proof (cases "py_setitem ''analysis_metadata'' meta d")
      case (Inl e)
      with Inr c g history_failure_score[of e] show ?thesis by (auto simp: history_try_def)
    next
      case s: (Inr d')
      with Inr c g have "json_get d' ''feature_loss_score'' = Some v"
        by (simp add: history_try_def)
      with json_get_setitem_other[OF s, of "''feature_loss_score''"]
      have "json_get d ''feature_loss_score'' = Some v" by simp
      with c show ?thesis by (rule clamp_field_score_ok)
    qed
  qed
qed

lemma history_try_not_json:
  "resp = Not_json \<or> resp = Invoke_raised \<Longrightarrow>
   json_get (history_try fc resp meta) ''feature_loss_score'' = Some (JInt 0)
   \<and> json_get (history_try fc resp meta) ''feature_changes'' = Some (JList [])"
  using history_failure_score by (auto simp: history_try_def response_data_def)

lemma context_total:
  "get_commit_history g n = Inr cs \<Longrightarrow> \<exists>c. get_feature_loss_context g n = Inr c"
  by (simp add: get_feature_loss_context_def Let_def)

lemma history_short:
  assumes "get_commit_history g 50 = Inr cs" "length cs < 2"
  shows "analyze_feature_loss_with_history g fc p b h resp now =
         Inr (JObj [(''error'', JStr ''Not enough commit history to analyze feature loss''),
                       (''score'', JInt 0)])"
  using assms by (simp add: analyze_feature_loss_with_history_def)

lemma history_long:
  assumes cs: "get_commit_history g 50 = Inr cs" and len: "\<not> length cs < 2"
  shows "\<exists>meta. analyze_feature_loss_with_history g fc p b h resp now =
            Inr (history_try fc resp meta)"
proof -
  obtain c where "get_feature_loss_context g 50 = Inr c"
    using context_total[OF cs] by blast
  with cs len show ?thesis
    by (auto simp: analyze_feature_loss_with_history_def Let_def split: prod.splits)
qed

lemma history_score_ok:
  assumes cs: "get_commit_history g 50 = Inr cs"
  shows "\<exists>r. analyze_feature_loss_with_history g fc p b h resp now = Inr r
          \<and> (\<forall>v. json_get r ''feature_loss_score'' = Some v \<longrightarrow> score_ok v)
          \<and> (2 \<le> length cs \<and> (resp = Not_json \<or> resp = Invoke_raised) \<longrightarrow>
               json_get r ''feature_loss_score'' = Some (JInt 0)
               \<and> json_get r ''feature_changes'' = Some (JList []))"
proof (cases "length cs < 2")
  case True
  from history_short[OF cs True, of fc p b h resp now] True show ?thesis
    by (auto simp: json_get_def)
next
  case False
  from history_long[OF cs False, of fc p b h resp now] obtain meta where
    r: "analyze_feature_loss_with_history g fc p b h resp now = Inr (history_try fc resp meta)"
    by blast
  have ok: "\<forall>v. json_get (history_try fc resp meta) ''feature_loss_score'' = Some v \<longrightarrow> score_ok v"
    using history_try_score_ok by blast
  from r ok history_try_not_json[of resp fc meta] show ?thesis by blast
qed

text \<open>
  C3.  Whatever the judgment service answers and however Python converts numbers, a
  \<^verbatim>\<open>score\<close> field in the result of \<^verbatim>\<open>unified_analysis\<close> and a \<^verbatim>\<open>feature_loss_score\<close>
  field in the result of \<^verbatim>\<open>analyze_feature_loss_with_history\<close> lie between 0 and 100.
  When the call to the service raises or its content is not JSON, the result is the
  failure dictionary, with score 0 and an empty list of findings; no exception leaves
  either function on account of the response (the history analysis returns a result
  whenever the commit history could be read).
\<close>

theorem scores_within_bounds:
  "(\<forall>v. json_get (unified_analysis fc resp) ''score'' = Some v \<longrightarrow> score_ok v)
   \<and> (resp = Not_json \<or> resp = Invoke_raised \<longrightarrow>
        json_get (unified_analysis fc resp) ''score'' = Some (JInt 0)
        \<and> json_get (unified_analysis fc resp) ''issues'' = Some (JList []))
   \<and> (get_commit_history g 50 = Inr cs \<longrightarrow>
        (\<exists>r. analyze_feature_loss_with_history g fc p b h resp now = Inr r
          \<and> (\<forall>v. json_get r ''feature_loss_score'' = Some v \<longrightarrow> score_ok v)
          \<and> (2 \<le> length cs \<and> (resp = Not_json \<or> resp = Invoke_raised) \<longrightarrow>
               json_get r ''feature_loss_score'' = Some (JInt 0)
               \<and> json_get r ''feature_changes'' = Some (JList []))))"
proof -
  have u: "\<forall>v. json_get (unified_analysis fc resp) ''score'' = Some v \<longrightarrow> score_ok v"
    using unified_score_ok by blast
  have n: "resp = Not_json \<or> resp = Invoke_raised \<longrightarrow>
        json_get (unified_analysis fc resp) ''score'' = Some (JInt 0)
        \<and> json_get (unified_analysis fc resp) ''issues'' = Some (JList [])"
    using unified_not_json by blast
  have a: "get_commit_history g 50 = Inr cs \<longrightarrow>
        (\<exists>r. analyze_feature_loss_with_history g fc p b h resp now = Inr r
          \<and> (\<forall>v. json_get r ''feature_loss_score'' = Some v \<longrightarrow> score_ok v)
          \<and> (2 \<le> length cs \<and> (resp = Not_json \<or> resp = Invoke_raised) \<longrightarrow>
               json_get r ''feature_loss_score'' = Some (JInt 0)
               \<and> json_get r ''feature_changes'' = Some (JList [])))"
    using history_score_ok by blast
  from u n a show ?thesis by (intro conjI)
qed

lemma unified_150:
  "unified_analysis exact_conv (Parsed (JObj [(''score'', JInt 150), (''issues'', JList [])]))
   = JObj [(''score'', JFloat (Fin 100)), (''issues'', JList [])]"
  by code_simp

lemma unified_nan:
  "unified_analysis exact_conv (Parsed (JObj [(''score'', JFloat NaN)]))
   = JObj [(''score'', JFloat (Fin 100))]"
  by code_simp

lemma unified_str:
  "unified_analysis exact_conv (Parsed (JObj [(''score'', JStr ''high'')]))
   = JObj [(''score'', JFloat (Fin 0))]"
  by code_simp

lemma hist_neg:
  "analyze_feature_loss_with_history scen_git exact_conv ''/tmp/w'' None None
     (Parsed (JObj [(''feature_loss_score'', JInt (- 5))])) ''2024-01-04''
   = Inr (JObj [(''feature_loss_score'', JFloat (Fin 0)),
        (''analysis_metadata'',
         JObj [(''repo_path'', JStr ''/tmp/w''), (''total_commits'', JInt 3),
           (''base_commit'', JStr ''c1c1c1c1c1c1''),
           (''head_commit'', JStr ''c3c3c3c3c3c3''),
           (''analysis_date'', JStr ''2024-01-04'')])])"
  by code_simp

lemma scen_history:
  "get_commit_history scen_git 50 =
     Inr [\<lparr>hash = ''c3c3c3c3c3c3'', message = ''add b.py'',
            date = ''2024-01-03 10:00:00 +0000'', author = ''dev''\<rparr>,
          \<lparr>hash = ''c2c2c2c2c2c2'', message = ''trim a.py'',
            date = ''2024-01-02 10:00:00 +0000'', author = ''dev''\<rparr>,
          \<lparr>hash = ''c1c1c1c1c1c1'', message = ''initial'',
            date = ''2024-01-01 10:00:00 +0000'', author = ''dev''\<rparr>]"
  by code_simp

theorem scores_within_bounds_witness:
  "json_get (unified_analysis exact_conv
       (Parsed (JObj [(''score'', JInt 150), (''issues'', JList [])]))) ''score''
     = Some (JFloat (Fin 100))
   \<and> score_ok (JFloat (Fin 100))
   \<and> json_get (unified_analysis exact_conv Not_json) ''score'' = Some (JInt 0)
   \<and> json_get (unified_analysis exact_conv Not_json) ''issues'' = Some (JList [])
   \<and> (\<exists>r. analyze_feature_loss_with_history scen_git exact_conv ''/tmp/w'' None None
             Not_json ''2024-01-04'' = Inr r
          \<and> json_get r ''feature_loss_score'' = Some (JInt 0)
          \<and> json_get r ''feature_changes'' = Some (JList []))"
proof -
  let ?resp = "Parsed (JObj [(''score'', JInt 150), (''issues'', JList [])])"
  let ?cs = "[\<lparr>hash = ''c3c3c3c3c3c3'', message = ''add b.py'',
            date = ''2024-01-03 10:00:00 +0000'', author = ''dev''\<rparr>,
          \<lparr>hash = ''c2c2c2c2c2c2'', message = ''trim a.py'',
            date = ''2024-01-02 10:00:00 +0000'', author = ''dev''\<rparr>,
          \<lparr>hash = ''c1c1c1c1c1c1'', message = ''initial'',
            date = ''2024-01-01 10:00:00 +0000'', author = ''dev''\<rparr>]"
  have g: "json_get (unified_analysis exact_conv ?resp) ''score'' = Some (JFloat (Fin 100))"
    by (simp add: unified_150 json_get_def)
  note t1 = scores_within_bounds[of exact_conv ?resp scen_git ?cs "''/tmp/w''" None None
      "''2024-01-04''"]
  from t1 g have s: "score_ok (JFloat (Fin 100))" by blast
  note t2 = scores_within_bounds[of exact_conv Not_json scen_git ?cs "''/tmp/w''" None None
      "''2024-01-04''"]
  have l: "2 \<le> length ?cs" by simp
  from t2 have u: "json_get (unified_analysis exact_conv Not_json) ''score'' = Some (JInt 0)
      \<and> json_get (unified_analysis exact_conv Not_json) ''issues'' = Some (JList [])"
    by blast
  from t2 scen_history l
  have a: "\<exists>r. analyze_feature_loss_with_history scen_git exact_conv ''/tmp/w'' None None
             Not_json ''2024-01-04'' = Inr r
          \<and> json_get r ''feature_loss_score'' = Some (JInt 0)
          \<and> json_get r ''feature_changes'' = Some (JList [])"
    by blast
  from g s u a show ?thesis by blast
qed

section \<open>The context summarizer\<close>



























lemma scen_tree_pruned:
  "prune scen_tree =
     Dir ''w''
       [Dir ''src'' []
          [a_py,
           \<lparr>fname = ''logo.png'', fsize = Some 900, flines = None\<rparr>,
           \<lparr>fname = ''big.py'', fsize = Some 200000, flines = Some []\<rparr>]]
       [readme]"
  by (simp add: scen_tree_def ignore_dirs_def)
















section \<open>The audit history store\<close>

lemma load_dump: "load_all_history (dump_history hf h) = Mapping h"
  by (simp add: load_all_history_def dump_history_def)

lemma get_mapping:
  "load_all_history hf = Mapping h \<Longrightarrow>
   get_repo_history hf r = Inr (case map_of h r of None \<Rightarrow> [] | Some es \<Rightarrow> es)"
  by (simp add: get_repo_history_def)

lemma get_other: "load_all_history hf = Other v \<Longrightarrow> get_repo_history hf r = Inl AttributeError"
  by (simp add: get_repo_history_def)

lemma get_returns_mapping:
  assumes "get_repo_history hf r = Inr es"
  shows "\<exists>h. load_all_history hf = Mapping h
           \<and> es = (case map_of h r of None \<Rightarrow> [] | Some es' \<Rightarrow> es')"
proof (cases "load_all_history hf")
  case (Mapping h)
  with assms show ?thesis by (simp add: get_mapping)
next
  case (Other v)
  with assms show ?thesis by (simp add: get_other)
qed

lemma save_mapping:
  assumes "load_all_history hf = Mapping h"
  shows "\<exists>hf' h'. save_analysis hf r t sc sm lh now = Inr hf'
           \<and> load_all_history hf' = Mapping h'
           \<and> writes hf' = Suc (writes hf)
           \<and> map_of h' = (map_of h)
                (r \<mapsto> take 10 (\<lparr>timestamp = now, entry_type = t, score = sc, summary = sm,
                                   last_commit_hash = lh\<rparr>
                                 # (case map_of h r of None \<Rightarrow> [] | Some es \<Rightarrow> es)))"
proof -
  let ?e = "\<lparr>timestamp = now, entry_type = t, score = sc, summary = sm,
             last_commit_hash = lh\<rparr>"
  let ?h1 = "if map_of h r = None then AList.update r [] h else h"
  let ?h3 = "AList.map_entry r (take 10) (AList.map_entry r (\<lambda>es. ?e # es) ?h1)"
  have s: "save_analysis hf r t sc sm lh now = Inr (dump_history hf ?h3)"
    using assms by (simp add: save_analysis_def Let_def)
  have l: "load_all_history (dump_history hf ?h3) = Mapping ?h3" by (rule load_dump)
  have w: "writes (dump_history hf ?h3) = Suc (writes hf)" by (simp add: dump_history_def)
  have m: "map_of ?h3 = (map_of h)
                (r \<mapsto> take 10 (?e # (case map_of h r of None \<Rightarrow> [] | Some es \<Rightarrow> es)))"
    by (auto simp: map_of_map_entry update_conv' fun_eq_iff split: option.splits)
  from s l w m show ?thesis by blast
qed

lemma save_other:
  assumes "load_all_history hf = Other v"
  shows "save_analysis hf r t sc sm lh now = Inl TypeError"
proof (cases "other_in r v")
  case (Inl err)
  then have "err = TypeError" by (cases v) simp_all
  with Inl assms show ?thesis by (simp add: save_analysis_def)
next
  case (Inr present)
  with assms show ?thesis by (simp add: save_analysis_def)
qed

lemma get_save:
  assumes "get_repo_history hf r = Inr es"
  shows "\<exists>hf'. save_analysis hf r' t sc sm lh now = Inr hf'
           \<and> get_repo_history hf' r =
               Inr (if r' = r
                    then take 10 (\<lparr>timestamp = now, entry_type = t, score = sc, summary = sm,
                                    last_commit_hash = lh\<rparr> # es)
                    else es)"
proof -
  from get_returns_mapping[OF assms] obtain h where h: "load_all_history hf = Mapping h"
    and es: "es = (case map_of h r of None \<Rightarrow> [] | Some es' \<Rightarrow> es')" by blast
  from save_mapping[OF h, of r' t sc sm lh now] obtain hf' h' where
    s: "save_analysis hf r' t sc sm lh now = Inr hf'"
    and l: "load_all_history hf' = Mapping h'"
    and m: "map_of h' = (map_of h)
                (r' \<mapsto> take 10 (\<lparr>timestamp = now, entry_type = t, score = sc, summary = sm,
                                   last_commit_hash = lh\<rparr>
                                 # (case map_of h r' of None \<Rightarrow> [] | Some es \<Rightarrow> es)))"
    by blast
  have "get_repo_history hf' r =
               Inr (if r' = r
                    then take 10 (\<lparr>timestamp = now, entry_type = t, score = sc, summary = sm,
                                    last_commit_hash = lh\<rparr> # es)
                    else es)"
    unfolding get_mapping[OF l] m es by simp
  with s show ?thesis by blast
qed

lemma take_append_take: "take n (xs @ take n ys) = take n (xs @ ys)"
  by (simp add: min_def)

lemma run_saves:
  "list_all is_save ops \<Longrightarrow> get_repo_history hf r = Inr es \<Longrightarrow> length es \<le> 10 \<Longrightarrow>
   \<exists>hf'. run_ops hf ops = Inr hf'
      \<and> get_repo_history hf' r = Inr (take 10 (rev (saved_entries r ops) @ es))"
proof (induction ops arbitrary: hf es)
  case Nil
  then show ?case by simp
next
  case (Cons x xs)
  from Cons.prems(1) obtain r' t sc sm lh now where x: "x = Save r' t sc sm lh now"
    by (cases x) auto
  let ?e = "\<lparr>timestamp = now, entry_type = t, score = sc, summary = sm,
             last_commit_hash = lh\<rparr>"
  let ?es1 = "if r' = r then take 10 (?e # es) else es"
  from get_save[OF Cons.prems(2), of r' t sc sm lh now] obtain hf1 where
    s: "save_analysis hf r' t sc sm lh now = Inr hf1"
    and g: "get_repo_history hf1 r = Inr ?es1" by blast
  have run: "run_ops hf (x # xs) = run_ops hf1 xs" by (simp add: x s)
  have len: "length ?es1 \<le> 10" using Cons.prems(3) by simp
  from Cons.prems(1) have "list_all is_save xs" by simp
  from Cons.IH[OF this g len] obtain hf' where
    r: "run_ops hf1 xs = Inr hf'"
    and ih: "get_repo_history hf' r = Inr (take 10 (rev (saved_entries r xs) @ ?es1))" by blast
  have "take 10 (rev (saved_entries r xs) @ ?es1)
          = take 10 (rev (saved_entries r (x # xs)) @ es)"
  proof (cases "r' = r")
    case True
    then have "take 10 (rev (saved_entries r xs) @ ?es1)
        = take 10 (rev (saved_entries r xs) @ ?e # es)"
      by (simp only: simp_thms if_True take_append_take)
    with True show ?thesis by (simp add: x)
  next
    case False
    then show ?thesis by (simp add: x)
  qed
  with ih have "get_repo_history hf' r = Inr (take 10 (rev (saved_entries r (x # xs)) @ es))"
    by simp
  with r run show ?case by simp
qed

lemma clear_mapping:
  "load_all_history hf = Mapping h \<Longrightarrow>
   clear_repo_history hf r =
     Inr (if map_of h r \<noteq> None then (dump_history hf (AList.delete r h), True)
          else (hf, False))"
  by (simp add: clear_repo_history_def)

lemma clear_absent:
  "load_all_history hf = Mapping h \<Longrightarrow> map_of h r = None \<Longrightarrow>
   clear_repo_history hf r = Inr (hf, False)"
  by (simp add: clear_mapping)

lemma clear_present:
  assumes "load_all_history hf = Mapping h" and "map_of h r \<noteq> None"
  shows "\<exists>hf' h'. clear_repo_history hf r = Inr (hf', True)
           \<and> load_all_history hf' = Mapping h'
           \<and> writes hf' = Suc (writes hf)
           \<and> map_of h' = (map_of h)(r := None)"
proof -
  have c: "clear_repo_history hf r = Inr (dump_history hf (AList.delete r h), True)"
    using assms by (simp add: clear_mapping)
  have l: "load_all_history (dump_history hf (AList.delete r h)) = Mapping (AList.delete r h)"
    by (rule load_dump)
  have w: "writes (dump_history hf (AList.delete r h)) = Suc (writes hf)"
    by (simp add: dump_history_def)
  have m: "map_of (AList.delete r h) = (map_of h)(r := None)"
    by (simp add: delete_conv' fun_eq_iff)
  from c l w m show ?thesis by blast
qed

lemma clear_false_untouched:
  assumes "clear_repo_history hf r = Inr (hf', False)"
  shows "hf' = hf"
proof (cases "load_all_history hf")
  case (Mapping h)
  with assms show ?thesis by (simp add: clear_mapping split: if_splits)
next
  case (Other v)
  with assms show ?thesis
    by (simp add: clear_repo_history_def split: sum.splits if_splits)
qed

text \<open>No operation stores an empty sequence.\<close>

lemma apply_op_no_empty:
  assumes "load_all_history hf = Mapping h"
    and "\<And>r es. map_of h r = Some es \<Longrightarrow> es \<noteq> []"
  shows "\<exists>hf' h'. apply_op hf x = Inr hf' \<and> load_all_history hf' = Mapping h'
           \<and> (\<forall>r es. map_of h' r = Some es \<longrightarrow> es \<noteq> [])"
proof (cases x)
  case (Save r' t sc sm lh now)
  from save_mapping[OF assms(1), of r' t sc sm lh now] obtain hf' h' where
    s: "save_analysis hf r' t sc sm lh now = Inr hf'"
    and l: "load_all_history hf' = Mapping h'"
    and m: "map_of h' = (map_of h)
                (r' \<mapsto> take 10 (\<lparr>timestamp = now, entry_type = t, score = sc, summary = sm,
                                   last_commit_hash = lh\<rparr>
                                 # (case map_of h r' of None \<Rightarrow> [] | Some es \<Rightarrow> es)))"
    by blast
  have "\<forall>r es. map_of h' r = Some es \<longrightarrow> es \<noteq> []"
  proof (intro allI impI)
    fix r es assume a: "map_of h' r = Some es"
    show "es \<noteq> []"
    proof (cases "r = r'")
      case True
      with a m show ?thesis by auto
    next
      case False
      with a m have "map_of h r = Some es" by simp
      then show ?thesis by (rule assms(2))
    qed
  qed
  with s l Save show ?thesis by simp
next
  case (Clear r')
  show ?thesis
  proof (cases "map_of h r' = None")
    case True
    with assms(1) have "clear_repo_history hf r' = Inr (hf, False)" by (rule clear_absent)
    with Clear have "apply_op hf x = Inr hf" by simp
    with assms show ?thesis by blast
  next
    case False
    from clear_present[OF assms(1) False] obtain hf' h' where
      c: "clear_repo_history hf r' = Inr (hf', True)"
      and l: "load_all_history hf' = Mapping h'"
      and m: "map_of h' = (map_of h)(r' := None)" by blast
    have "\<forall>r es. map_of h' r = Some es \<longrightarrow> es \<noteq> []"
    proof (intro allI impI)
      fix r es assume a: "map_of h' r = Some es"
      with m have "map_of h r = Some es" by (cases "r = r'") simp_all
      then show "es \<noteq> []" by (rule assms(2))
    qed
    with c l Clear show ?thesis by simp
  qed
qed

lemma run_ops_no_empty:
  assumes "load_all_history hf = Mapping h"
    and "\<And>r es. map_of h r = Some es \<Longrightarrow> es \<noteq> []"
  shows "\<exists>hf' h'. run_ops hf ops = Inr hf' \<and> load_all_history hf' = Mapping h'
           \<and> (\<forall>r es. map_of h' r = Some es \<longrightarrow> es \<noteq> [])"
  using assms
proof (induction ops arbitrary: hf h)
  case Nil
  then show ?case by auto
next
  case (Cons x xs)
  have "\<exists>hf1 h1. apply_op hf x = Inr hf1 \<and> load_all_history hf1 = Mapping h1
           \<and> (\<forall>r es. map_of h1 r = Some es \<longrightarrow> es \<noteq> [])"
    using Cons.prems(1) by (rule apply_op_no_empty) (rule Cons.prems(2))
  then obtain hf1 h1 where
    a: "apply_op hf x = Inr hf1" and l: "load_all_history hf1 = Mapping h1"
    and n: "\<forall>r es. map_of h1 r = Some es \<longrightarrow> es \<noteq> []" by blast
  have "\<exists>hf' h'. run_ops hf1 xs = Inr hf' \<and> load_all_history hf' = Mapping h'
           \<and> (\<forall>r es. map_of h' r = Some es \<longrightarrow> es \<noteq> [])"
    using l
  proof (rule Cons.IH)
    fix r es assume "map_of h1 r = Some es"
    with n show "es \<noteq> []" by blast
  qed
  with a show ?case by simp
qed

lemma fresh_load: "fresh hf \<Longrightarrow> load_all_history hf = Mapping []"
  by (auto simp: fresh_def load_all_history_def)

lemma reachable_empty_iff_absent:
  assumes "fresh hf"
  shows "\<exists>hf' h'. run_ops hf ops = Inr hf' \<and> load_all_history hf' = Mapping h'
           \<and> (get_repo_history hf' r = Inr [] \<longleftrightarrow> map_of h' r = None)"
proof -
  have "\<exists>hf' h'. run_ops hf ops = Inr hf' \<and> load_all_history hf' = Mapping h'
           \<and> (\<forall>r es. map_of h' r = Some es \<longrightarrow> es \<noteq> [])"
    using fresh_load[OF assms] by (rule run_ops_no_empty) simp
  then obtain hf' h' where
    r: "run_ops hf ops = Inr hf'" and l: "load_all_history hf' = Mapping h'"
    and n: "\<forall>r es. map_of h' r = Some es \<longrightarrow> es \<noteq> []" by blast
  have i: "get_repo_history hf' r = Inr [] \<longleftrightarrow> map_of h' r = None"
    using n by (auto simp: get_mapping[OF l] split: option.splits)
  show ?thesis
  proof (intro exI conjI)
    show "run_ops hf ops = Inr hf'" by (rule r)
    show "load_all_history hf' = Mapping h'" by (rule l)
    show "get_repo_history hf' r = Inr [] \<longleftrightarrow> map_of h' r = None" by (rule i)
  qed
qed


text \<open>
  C4.  On a file that \<^verbatim>\<open>get_repo_history\<close> can read, one call of \<^verbatim>\<open>save_analysis\<close> puts
  the new entry at index 0 of the repository's sequence and keeps the first ten.  Hence,
  for a repository without entries and any run of \<^verbatim>\<open>save_analysis\<close> calls (for this and
  for other repositories), every call returns and \<^verbatim>\<open>get_repo_history\<close> then returns the
  entries appended for the repository, newest first, cut to the ten newest: \<open>min N 10\<close>
  entries after \<open>N\<close> appends.
\<close>

theorem append_keeps_ten_newest:
  "(get_repo_history hf r = Inr es \<longrightarrow>
      (\<exists>hf'. save_analysis hf r t sc sm lh now = Inr hf'
         \<and> get_repo_history hf' r =
             Inr (take 10 (\<lparr>timestamp = now, entry_type = t, score = sc, summary = sm,
                             last_commit_hash = lh\<rparr> # es))))
   \<and> (list_all is_save ops \<and> get_repo_history hf r = Inr [] \<longrightarrow>
        (\<exists>hf' es'. run_ops hf ops = Inr hf'
           \<and> get_repo_history hf' r = Inr es'
           \<and> es' = take 10 (rev (saved_entries r ops))
           \<and> length es' = min (length (saved_entries r ops)) 10))"
proof -
  have one: "get_repo_history hf r = Inr es \<longrightarrow>
      (\<exists>hf'. save_analysis hf r t sc sm lh now = Inr hf'
         \<and> get_repo_history hf' r =
             Inr (take 10 (\<lparr>timestamp = now, entry_type = t, score = sc, summary = sm,
                             last_commit_hash = lh\<rparr> # es)))"
  proof
    assume "get_repo_history hf r = Inr es"
    from get_save[OF this, of r t sc sm lh now]
    show "\<exists>hf'. save_analysis hf r t sc sm lh now = Inr hf'
         \<and> get_repo_history hf' r =
             Inr (take 10 (\<lparr>timestamp = now, entry_type = t, score = sc, summary = sm,
                             last_commit_hash = lh\<rparr> # es))"
      by simp
  qed
  have many: "list_all is_save ops \<and> get_repo_history hf r = Inr [] \<longrightarrow>
        (\<exists>hf' es'. run_ops hf ops = Inr hf'
           \<and> get_repo_history hf' r = Inr es'
           \<and> es' = take 10 (rev (saved_entries r ops))
           \<and> length es' = min (length (saved_entries r ops)) 10)"
  proof
    assume a: "list_all is_save ops \<and> get_repo_history hf r = Inr []"
    then have s: "list_all is_save ops" and g: "get_repo_history hf r = Inr []" by simp_all
    have "length ([] :: entry list) \<le> 10" by simp
    from run_saves[OF s g this] obtain hf' where
      r: "run_ops hf ops = Inr hf'"
      and e: "get_repo_history hf' r = Inr (take 10 (rev (saved_entries r ops)))" by auto
    have "length (take 10 (rev (saved_entries r ops))) = min (length (saved_entries r ops)) 10"
      by simp
    with r e show "\<exists>hf' es'. run_ops hf ops = Inr hf'
           \<and> get_repo_history hf' r = Inr es'
           \<and> es' = take 10 (rev (saved_entries r ops))
           \<and> length es' = min (length (saved_entries r ops)) 10"
      by blast
  qed
  from one many show ?thesis by (rule conjI)
qed

lemma thirteen_all_saves: "list_all is_save thirteen_saves"
  by (simp add: thirteen_saves_def)

lemma thirteen_timestamps:
  "map timestamp (take 10 (rev (saved_entries ''repo'' thirteen_saves))) =
     [''t12'', ''t11'', ''t10'', ''t09'', ''t08'', ''t07'', ''t06'', ''t04'', ''t03'', ''t02'']"
  by (simp add: thirteen_saves_def)

lemma thirteen_count: "length (saved_entries ''repo'' thirteen_saves) = 12"
  by (simp add: thirteen_saves_def)

lemma empty_file_load: "load_all_history empty_file = Mapping []"
  by (simp add: load_all_history_def empty_file_def)

lemma empty_file_get: "get_repo_history empty_file r = Inr []"
  by (simp add: get_mapping[OF empty_file_load])

lemma two_repos_load:
  "load_all_history two_repos
     = Mapping [(''repo'', [first_audit]), (''other'', [second_audit])]"
  by (simp add: two_repos_def load_all_history_def)

lemma two_repos_writes: "writes two_repos = 2"
  by (simp add: two_repos_def)

lemma two_repos_repo: "get_repo_history two_repos ''repo'' = Inr [first_audit]"
  by (simp add: get_mapping[OF two_repos_load])

lemma two_repos_other: "get_repo_history two_repos ''other'' = Inr [second_audit]"
  by (simp add: get_mapping[OF two_repos_load])

text \<open>The store \<open>two_repos\<close> is what two calls of \<^verbatim>\<open>save_analysis\<close> leave of an absent
  file.\<close>

lemma two_repos_run:
  "run_ops empty_file
     [Save ''repo'' ''Unified'' (JInt 90) ''first'' (Some ''c1c1c1c1c1c1'') ''2024-01-01'',
      Save ''other'' ''Unified'' (JInt 70) ''second'' None ''2024-01-02''] = Inr two_repos"
  by (simp add: two_repos_def save_analysis_def Let_def load_all_history_def
        dump_history_def empty_file_def first_audit_def second_audit_def)

theorem append_keeps_ten_newest_witness:
  "(\<exists>hf'. save_analysis two_repos ''repo'' ''Unified'' (JInt 50) ''third'' None ''2024-01-03''
             = Inr hf'
      \<and> get_repo_history hf' ''repo'' =
          Inr [\<lparr>timestamp = ''2024-01-03'', entry_type = ''Unified'', score = JInt 50,
                 summary = ''third'', last_commit_hash = None\<rparr>, first_audit])
   \<and> (\<exists>hf' es'. run_ops empty_file thirteen_saves = Inr hf'
        \<and> get_repo_history hf' ''repo'' = Inr es'
        \<and> map timestamp es' =
            [''t12'', ''t11'', ''t10'', ''t09'', ''t08'', ''t07'', ''t06'', ''t04'', ''t03'',
             ''t02'']
        \<and> length es' = 10)"
proof -
  note t1 = append_keeps_ten_newest[of two_repos "''repo''" "[first_audit]" "''Unified''"
      "JInt 50" "''third''" None "''2024-01-03''" "[]"]
  note t2 = append_keeps_ten_newest[of empty_file "''repo''" "[]" "''Unified''" "JInt 0"
      "''done''" None "''0''" thirteen_saves]
  from t1 two_repos_repo
  have 1: "\<exists>hf'. save_analysis two_repos ''repo'' ''Unified'' (JInt 50) ''third'' None
               ''2024-01-03'' = Inr hf'
      \<and> get_repo_history hf' ''repo'' =
          Inr [\<lparr>timestamp = ''2024-01-03'', entry_type = ''Unified'', score = JInt 50,
                 summary = ''third'', last_commit_hash = None\<rparr>, first_audit]"
    by simp
  from t2 thirteen_all_saves empty_file_get[of "''repo''"] obtain hf' es' where
    r: "run_ops empty_file thirteen_saves = Inr hf'"
    and g: "get_repo_history hf' ''repo'' = Inr es'"
    and e: "es' = take 10 (rev (saved_entries ''repo'' thirteen_saves))"
    and l: "length es' = min (length (saved_entries ''repo'' thirteen_saves)) 10"
    by blast
  from e have m: "map timestamp es' =
     [''t12'', ''t11'', ''t10'', ''t09'', ''t08'', ''t07'', ''t06'', ''t04'', ''t03'', ''t02'']"
    by (simp only: thirteen_timestamps)
  from l have n: "length es' = 10" by (simp add: thirteen_count)
  have 2: "\<exists>hf' es'. run_ops empty_file thirteen_saves = Inr hf'
        \<and> get_repo_history hf' ''repo'' = Inr es'
        \<and> map timestamp es' =
            [''t12'', ''t11'', ''t10'', ''t09'', ''t08'', ''t07'', ''t06'', ''t04'', ''t03'',
             ''t02'']
        \<and> length es' = 10"
  proof (intro exI conjI)
    show "run_ops empty_file thirteen_saves = Inr hf'" by (rule r)
    show "get_repo_history hf' ''repo'' = Inr es'" by (rule g)
    show "map timestamp es' =
            [''t12'', ''t11'', ''t10'', ''t09'', ''t08'', ''t07'', ''t06'', ''t04'', ''t03'',
             ''t02'']" by (rule m)
    show "length es' = 10" by (rule n)
  qed
  from 1 2 show ?thesis by (rule conjI)
qed

text \<open>
  C9.  On a file that holds a mapping, \<^verbatim>\<open>clear_repo_history\<close> on a repository that is not
  a key returns false and leaves the file as it is; on a repository that is a key,
  whether its list has entries or is empty, it returns true, the repository has no
  entries afterwards and the entries of every other repository are the same before and
  after.  A repository with entries is a key.  An absent file and a file that cannot be
  read or parsed read as the empty mapping.  A file that parses to a JSON value other
  than a mapping is returned as parsed: on it \<^verbatim>\<open>get_repo_history\<close> raises
  \<^verbatim>\<open>AttributeError\<close> and \<^verbatim>\<open>save_analysis\<close> raises \<^verbatim>\<open>TypeError\<close>.  In every state reached
  from a fresh file by calls of the store, every call returns and a repository has no
  entries exactly when it is not a key.
\<close>

theorem clear_contract:
  "(load_all_history hf = Mapping h \<and> map_of h r = None \<longrightarrow>
      clear_repo_history hf r = Inr (hf, False))
   \<and> (load_all_history hf = Mapping h \<and> map_of h r \<noteq> None \<longrightarrow>
        (\<exists>hf'. clear_repo_history hf r = Inr (hf', True)
           \<and> get_repo_history hf' r = Inr []
           \<and> (r' \<noteq> r \<longrightarrow> get_repo_history hf' r' = get_repo_history hf r')))
   \<and> (get_repo_history hf r = Inr (e # es) \<longrightarrow>
        (\<exists>h0. load_all_history hf = Mapping h0 \<and> map_of h0 r \<noteq> None))
   \<and> (contents hf = Absent \<or> contents hf = Corrupt \<longrightarrow>
        load_all_history hf = Mapping [] \<and> get_repo_history hf r = Inr [])
   \<and> (contents hf = Stored_other v \<longrightarrow>
        load_all_history hf = Other v
        \<and> get_repo_history hf r = Inl AttributeError
        \<and> save_analysis hf r t sc sm lh now = Inl TypeError)
   \<and> (fresh hf0 \<longrightarrow>
        (\<exists>hf1 h1. run_ops hf0 ops = Inr hf1 \<and> load_all_history hf1 = Mapping h1
           \<and> (get_repo_history hf1 r = Inr [] \<longleftrightarrow> map_of h1 r = None)))"
proof -
  have absent: "load_all_history hf = Mapping h \<and> map_of h r = None \<longrightarrow>
      clear_repo_history hf r = Inr (hf, False)"
    using clear_absent by blast
  have present: "load_all_history hf = Mapping h \<and> map_of h r \<noteq> None \<longrightarrow>
        (\<exists>hf'. clear_repo_history hf r = Inr (hf', True)
           \<and> get_repo_history hf' r = Inr []
           \<and> (r' \<noteq> r \<longrightarrow> get_repo_history hf' r' = get_repo_history hf r'))"
  proof
    assume a: "load_all_history hf = Mapping h \<and> map_of h r \<noteq> None"
    then have l: "load_all_history hf = Mapping h" and k: "map_of h r \<noteq> None" by simp_all
    from clear_present[OF l k] obtain hf' h' where
      c: "clear_repo_history hf r = Inr (hf', True)"
      and l': "load_all_history hf' = Mapping h'"
      and m: "map_of h' = (map_of h)(r := None)" by blast
    have g: "get_repo_history hf' r = Inr []"
      unfolding get_mapping[OF l'] m by simp
    have o: "r' \<noteq> r \<longrightarrow> get_repo_history hf' r' = get_repo_history hf r'"
      unfolding get_mapping[OF l'] get_mapping[OF l] m by simp
    from c g o show "\<exists>hf'. clear_repo_history hf r = Inr (hf', True)
           \<and> get_repo_history hf' r = Inr []
           \<and> (r' \<noteq> r \<longrightarrow> get_repo_history hf' r' = get_repo_history hf r')"
      by blast
  qed
  have key: "get_repo_history hf r = Inr (e # es) \<longrightarrow>
        (\<exists>h0. load_all_history hf = Mapping h0 \<and> map_of h0 r \<noteq> None)"
  proof
    assume "get_repo_history hf r = Inr (e # es)"
    from get_returns_mapping[OF this] obtain h0 where
      "load_all_history hf = Mapping h0"
      "e # es = (case map_of h0 r of None \<Rightarrow> [] | Some es' \<Rightarrow> es')" by blast
    then show "\<exists>h0. load_all_history hf = Mapping h0 \<and> map_of h0 r \<noteq> None"
      by (cases "map_of h0 r") auto
  qed
  have unreadable: "contents hf = Absent \<or> contents hf = Corrupt \<longrightarrow>
        load_all_history hf = Mapping [] \<and> get_repo_history hf r = Inr []"
    by (auto simp: load_all_history_def get_repo_history_def)
  have other: "contents hf = Stored_other v \<longrightarrow>
        load_all_history hf = Other v
        \<and> get_repo_history hf r = Inl AttributeError
        \<and> save_analysis hf r t sc sm lh now = Inl TypeError"
  proof
    assume "contents hf = Stored_other v"
    then have l: "load_all_history hf = Other v" by (simp add: load_all_history_def)
    from l get_other[OF l] save_other[OF l]
    show "load_all_history hf = Other v
        \<and> get_repo_history hf r = Inl AttributeError
        \<and> save_analysis hf r t sc sm lh now = Inl TypeError"
      by simp
  qed
  have reach: "fresh hf0 \<longrightarrow>
        (\<exists>hf1 h1. run_ops hf0 ops = Inr hf1 \<and> load_all_history hf1 = Mapping h1
           \<and> (get_repo_history hf1 r = Inr [] \<longleftrightarrow> map_of h1 r = None))"
    using reachable_empty_iff_absent by blast
  from absent present key unreadable other reach show ?thesis by (intro conjI)
qed

lemma fresh_empty_file: "fresh empty_file"
  by (simp add: fresh_def empty_file_def)

lemma list_file_contents: "contents list_file = Stored_other (Json_list [])"
  by (simp add: list_file_def)

theorem clear_contract_witness:
  "clear_repo_history two_repos ''absent'' = Inr (two_repos, False)
   \<and> (\<exists>hf'. clear_repo_history two_repos ''repo'' = Inr (hf', True)
        \<and> get_repo_history hf' ''repo'' = Inr []
        \<and> get_repo_history hf' ''other'' = Inr [second_audit])
   \<and> (\<exists>h0. load_all_history two_repos = Mapping h0 \<and> map_of h0 ''repo'' \<noteq> None)
   \<and> load_all_history empty_file = Mapping []
   \<and> get_repo_history empty_file ''repo'' = Inr []
   \<and> load_all_history list_file = Other (Json_list [])
   \<and> get_repo_history list_file ''repo'' = Inl AttributeError
   \<and> save_analysis list_file ''repo'' ''Unified'' (JInt 50) ''third'' None ''2024-01-03''
       = Inl TypeError
   \<and> (\<exists>hf1 h1. run_ops empty_file thirteen_saves = Inr hf1
        \<and> load_all_history hf1 = Mapping h1
        \<and> (get_repo_history hf1 ''absent'' = Inr []) = (map_of h1 ''absent'' = None))"
proof -
  let ?h = "[(''repo'', [first_audit]), (''other'', [second_audit])]"
  note t1 = clear_contract[where hf = two_repos and h = ?h and r = "''absent''"
      and hf0 = empty_file and ops = thirteen_saves]
  note t2 = clear_contract[where hf = two_repos and h = ?h and r = "''repo''"
      and r' = "''other''" and e = first_audit and es = "[]"]
  note t3 = clear_contract[where hf = empty_file and r = "''repo''"]
  note t4 = clear_contract[where hf = list_file and r = "''repo''" and v = "Json_list []"
      and t = "''Unified''" and sc = "JInt 50" and sm = "''third''" and lh = None
      and now = "''2024-01-03''"]
  have ne: "''other'' \<noteq> ''repo''" by simp
  have ab: "contents empty_file = Absent" by (simp add: empty_file_def)
  have k0: "map_of ?h ''absent'' = None" by simp
  have k1: "map_of ?h ''repo'' \<noteq> None" by simp
  from t1 two_repos_load k0
  have 1: "clear_repo_history two_repos ''absent'' = Inr (two_repos, False)" by blast
  from t2 two_repos_load k1 ne obtain hf' where
    "clear_repo_history two_repos ''repo'' = Inr (hf', True)"
    "get_repo_history hf' ''repo'' = Inr []"
    "get_repo_history hf' ''other'' = get_repo_history two_repos ''other''" by blast
  then have 2: "\<exists>hf'. clear_repo_history two_repos ''repo'' = Inr (hf', True)
        \<and> get_repo_history hf' ''repo'' = Inr []
        \<and> get_repo_history hf' ''other'' = Inr [second_audit]"
    by (auto simp: two_repos_other)
  from t2 two_repos_repo
  have 3: "\<exists>h0. load_all_history two_repos = Mapping h0 \<and> map_of h0 ''repo'' \<noteq> None"
    by blast
  from t3 ab
  have 4: "load_all_history empty_file = Mapping []"
    and 5: "get_repo_history empty_file ''repo'' = Inr []"
    by blast+
  from t4 list_file_contents
  have 6: "load_all_history list_file = Other (Json_list [])"
    and 7: "get_repo_history list_file ''repo'' = Inl AttributeError"
    and 8: "save_analysis list_file ''repo'' ''Unified'' (JInt 50) ''third'' None ''2024-01-03''
       = Inl TypeError"
    by blast+
  from t1 fresh_empty_file
  have 9: "\<exists>hf1 h1. run_ops empty_file thirteen_saves = Inr hf1
        \<and> load_all_history hf1 = Mapping h1
        \<and> (get_repo_history hf1 ''absent'' = Inr []) = (map_of h1 ''absent'' = None)"
    by blast
  from 1 2 3 4 5 6 7 8 9 show ?thesis by (intro conjI)
qed

text \<open>
  The claim as worded does not hold.  In \<open>empty_list_repo\<close> the repository \<^verbatim>\<open>repo\<close> is a
  key with an empty list: it has no stored entries, and \<^verbatim>\<open>clear_repo_history\<close> returns
  true and rewrites the file.  In \<open>list_file\<close> the backing file holds the JSON list
  \<^verbatim>\<open>[]\<close>: it is not read as an empty mapping, and \<^verbatim>\<open>get_repo_history\<close> raises.
\<close>

theorem clear_contract_counterexample:
  "get_repo_history empty_list_repo ''repo'' = Inr []
   \<and> clear_repo_history empty_list_repo ''repo''
       = Inr (\<lparr>contents = Stored [(''other'', [second_audit])], writes = 1\<rparr>, True)
   \<and> load_all_history list_file = Other (Json_list [])
   \<and> load_all_history list_file \<noteq> Mapping []
   \<and> get_repo_history list_file ''repo'' = Inl AttributeError"
  by (simp add: get_repo_history_def clear_repo_history_def load_all_history_def
        empty_list_repo_def list_file_def dump_history_def)

text \<open>
  C10.  For every starting mapping, \<^verbatim>\<open>save_analysis\<close> for one repository returns, writes
  the file once and leaves the stored sequence of every other repository as it was.
  \<^verbatim>\<open>clear_repo_history\<close> on a repository that is not a key returns false with the file
  untouched and not opened for writing, whereas a clear that finds the key writes the
  file once.  Whatever the file holds, a clear that returns false leaves it untouched.
\<close>

theorem saves_frame_and_failed_clear:
  "(load_all_history hf = Mapping h \<longrightarrow>
      (\<exists>hf' h'. save_analysis hf r t sc sm lh now = Inr hf'
         \<and> load_all_history hf' = Mapping h'
         \<and> writes hf' = Suc (writes hf)
         \<and> (r' \<noteq> r \<longrightarrow>
              map_of h' r' = map_of h r'
              \<and> get_repo_history hf' r' = get_repo_history hf r')))
   \<and> (load_all_history hf = Mapping h \<and> map_of h r = None \<longrightarrow>
        clear_repo_history hf r = Inr (hf, False))
   \<and> (load_all_history hf = Mapping h \<and> map_of h r \<noteq> None \<longrightarrow>
        (\<exists>hf'. clear_repo_history hf r = Inr (hf', True) \<and> writes hf' = Suc (writes hf)))
   \<and> (clear_repo_history hf r = Inr (hf2, False) \<longrightarrow> hf2 = hf \<and> writes hf2 = writes hf)"
proof -
  have frame: "load_all_history hf = Mapping h \<longrightarrow>
      (\<exists>hf' h'. save_analysis hf r t sc sm lh now = Inr hf'
         \<and> load_all_history hf' = Mapping h'
         \<and> writes hf' = Suc (writes hf)
         \<and> (r' \<noteq> r \<longrightarrow>
              map_of h' r' = map_of h r'
              \<and> get_repo_history hf' r' = get_repo_history hf r'))"
  proof
    assume l: "load_all_history hf = Mapping h"
    from save_mapping[OF l, of r t sc sm lh now] obtain hf' h' where
      s: "save_analysis hf r t sc sm lh now = Inr hf'"
      and l': "load_all_history hf' = Mapping h'"
      and w: "writes hf' = Suc (writes hf)"
      and m: "map_of h' = (map_of h)
                (r \<mapsto> take 10 (\<lparr>timestamp = now, entry_type = t, score = sc, summary = sm,
                                   last_commit_hash = lh\<rparr>
                                 # (case map_of h r of None \<Rightarrow> [] | Some es \<Rightarrow> es)))"
      by blast
    have f: "r' \<noteq> r \<longrightarrow>
              map_of h' r' = map_of h r'
              \<and> get_repo_history hf' r' = get_repo_history hf r'"
      unfolding get_mapping[OF l'] get_mapping[OF l] m by simp
    from s l' w f show "\<exists>hf' h'. save_analysis hf r t sc sm lh now = Inr hf'
         \<and> load_all_history hf' = Mapping h'
         \<and> writes hf' = Suc (writes hf)
         \<and> (r' \<noteq> r \<longrightarrow>
              map_of h' r' = map_of h r'
              \<and> get_repo_history hf' r' = get_repo_history hf r')"
      by blast
  qed
  have failed: "load_all_history hf = Mapping h \<and> map_of h r = None \<longrightarrow>
        clear_repo_history hf r = Inr (hf, False)"
    using clear_absent by blast
  have cleared: "load_all_history hf = Mapping h \<and> map_of h r \<noteq> None \<longrightarrow>
        (\<exists>hf'. clear_repo_history hf r = Inr (hf', True) \<and> writes hf' = Suc (writes hf))"
    using clear_present by blast
  have untouched: "clear_repo_history hf r = Inr (hf2, False) \<longrightarrow>
        hf2 = hf \<and> writes hf2 = writes hf"
    using clear_false_untouched by blast
  from frame failed cleared untouched show ?thesis by (intro conjI)
qed

theorem saves_frame_and_failed_clear_witness:
  "(\<exists>hf'. save_analysis two_repos ''repo'' ''Unified'' (JInt 50) ''third'' None ''2024-01-03''
             = Inr hf'
      \<and> writes hf' = 3
      \<and> get_repo_history hf' ''other'' = Inr [second_audit])
   \<and> clear_repo_history two_repos ''absent'' = Inr (two_repos, False)
   \<and> writes two_repos = 2
   \<and> (\<exists>hf'. clear_repo_history two_repos ''other'' = Inr (hf', True) \<and> writes hf' = 3)
   \<and> clear_repo_history list_file ''repo'' = Inr (list_file, False)"
proof -
  let ?h = "[(''repo'', [first_audit]), (''other'', [second_audit])]"
  note t1 = saves_frame_and_failed_clear[where hf = two_repos and h = ?h and r = "''repo''"
      and r' = "''other''" and t = "''Unified''" and sc = "JInt 50" and sm = "''third''"
      and lh = None and now = "''2024-01-03''"]
  note t2 = saves_frame_and_failed_clear[where hf = two_repos and h = ?h
      and r = "''absent''"]
  note t3 = saves_frame_and_failed_clear[where hf = two_repos and h = ?h and r = "''other''"]
  have ne: "''other'' \<noteq> ''repo''" by simp
  have k0: "map_of ?h ''absent'' = None" by simp
  have k1: "map_of ?h ''other'' \<noteq> None" by simp
  from t1 two_repos_load ne obtain hf' where
    "save_analysis two_repos ''repo'' ''Unified'' (JInt 50) ''third'' None ''2024-01-03''
       = Inr hf'"
    "writes hf' = Suc (writes two_repos)"
    "get_repo_history hf' ''other'' = get_repo_history two_repos ''other''" by blast
  then have 1: "\<exists>hf'. save_analysis two_repos ''repo'' ''Unified'' (JInt 50) ''third'' None
               ''2024-01-03'' = Inr hf'
      \<and> writes hf' = 3
      \<and> get_repo_history hf' ''other'' = Inr [second_audit]"
    by (auto simp: two_repos_other two_repos_writes)
  from t2 two_repos_load k0
  have 2: "clear_repo_history two_repos ''absent'' = Inr (two_repos, False)" by blast
  have 3: "writes two_repos = 2" by (rule two_repos_writes)
  from t3 two_repos_load k1 obtain hf'' where
    "clear_repo_history two_repos ''other'' = Inr (hf'', True)"
    "writes hf'' = Suc (writes two_repos)" by blast
  then have 4: "\<exists>hf'. clear_repo_history two_repos ''other'' = Inr (hf', True) \<and> writes hf' = 3"
    by (auto simp: two_repos_writes)
  obtain hf2 where c: "clear_repo_history list_file ''repo'' = Inr (hf2, False)"
    by (simp add: clear_repo_history_def load_all_history_def list_file_def)
  note t4 = saves_frame_and_failed_clear[where hf = list_file and r = "''repo''"
      and ?hf2.0 = hf2]
  from t4 c have "hf2 = list_file" by blast
  with c have 5: "clear_repo_history list_file ''repo'' = Inr (list_file, False)" by simp
  from 1 2 3 4 5 show ?thesis by (intro conjI)
qed

section \<open>Range selection\<close>

lemma or_default_truthy: "truthy x \<Longrightarrow> Some (or_default x d) = x"
  by (cases x) auto

lemma or_default_falsy: "\<not> truthy x \<Longrightarrow> or_default x d = d"
  by (cases x) auto

lemma scan_history_none:
  "\<forall>x \<in> set es. \<not> truthy (last_commit_hash x) \<Longrightarrow> scan_history es = None"
  by (induction es) simp_all

lemma scan_history_first:
  "\<forall>x \<in> set pre. \<not> truthy (last_commit_hash x) \<Longrightarrow> truthy (last_commit_hash e)
   \<Longrightarrow> scan_history (pre @ e # post) = last_commit_hash e"
  by (induction pre) simp_all

lemma last_analyzed_none:
  "\<forall>x \<in> set es. \<not> truthy (last_commit_hash x) \<Longrightarrow> last_analyzed_commit es = None"
  by (simp add: last_analyzed_commit_def scan_history_none)

lemma last_analyzed_first:
  "\<forall>x \<in> set pre. \<not> truthy (last_commit_hash x) \<Longrightarrow> truthy (last_commit_hash e)
   \<Longrightarrow> last_analyzed_commit (pre @ e # post) = last_commit_hash e"
  by (simp add: last_analyzed_commit_def scan_history_first)

lemma select_range_long:
  "2 \<le> length cs \<Longrightarrow>
   select_range hist cs eb eh =
     Some (or_default (if truthy eb then eb else last_analyzed_commit hist) (hash (last cs)),
           or_default (if truthy eh then eh else None) (hash (cs ! 0)))"
  by (simp add: select_range_def commit_range_def Let_def)

text \<open>
  C5.  With two available commits or more, the range is resolved as follows.  A base or a
  head that the caller supplies is the one used.  Without a supplied head, the head is
  the first (newest) available commit.  Without a supplied base, the base is the
  \<^verbatim>\<open>last_commit_hash\<close> of the first history entry, scanning from the newest, that has
  one; when no entry has one, in particular when the history is empty, the base is the
  last (oldest) available commit.  So an empty history and no supplied commit give the
  range (oldest, newest).  \<^verbatim>\<open>ci_gate.py\<close> supplies neither.  With fewer than two commits
  no range is selected.
\<close>

theorem range_selection:
  "(length cs < 2 \<longrightarrow> select_range hist cs eb eh = None)
   \<and> (2 \<le> length cs \<longrightarrow>
        (\<exists>base head. select_range hist cs eb eh = Some (base, head)
           \<and> (truthy eh \<longrightarrow> Some head = eh)
           \<and> (\<not> truthy eh \<longrightarrow> head = hash (cs ! 0))
           \<and> (truthy eb \<longrightarrow> Some base = eb)
           \<and> (\<not> truthy eb \<and> hist = pre @ e # post
                \<and> (\<forall>x \<in> set pre. \<not> truthy (last_commit_hash x))
                \<and> truthy (last_commit_hash e) \<longrightarrow> Some base = last_commit_hash e)
           \<and> (\<not> truthy eb \<and> (\<forall>x \<in> set hist. \<not> truthy (last_commit_hash x)) \<longrightarrow>
                base = hash (last cs))))
   \<and> (2 \<le> length cs \<longrightarrow> select_range [] cs None None = Some (hash (last cs), hash (cs ! 0)))
   \<and> gate_range hist cs = select_range hist cs None None"
proof -
  have short: "length cs < 2 \<longrightarrow> select_range hist cs eb eh = None"
    by (simp add: select_range_def Let_def)
  have long: "2 \<le> length cs \<longrightarrow>
        (\<exists>base head. select_range hist cs eb eh = Some (base, head)
           \<and> (truthy eh \<longrightarrow> Some head = eh)
           \<and> (\<not> truthy eh \<longrightarrow> head = hash (cs ! 0))
           \<and> (truthy eb \<longrightarrow> Some base = eb)
           \<and> (\<not> truthy eb \<and> hist = pre @ e # post
                \<and> (\<forall>x \<in> set pre. \<not> truthy (last_commit_hash x))
                \<and> truthy (last_commit_hash e) \<longrightarrow> Some base = last_commit_hash e)
           \<and> (\<not> truthy eb \<and> (\<forall>x \<in> set hist. \<not> truthy (last_commit_hash x)) \<longrightarrow>
                base = hash (last cs)))"
  proof
    assume len: "2 \<le> length cs"
    let ?base = "or_default (if truthy eb then eb else last_analyzed_commit hist) (hash (last cs))"
    let ?head = "or_default (if truthy eh then eh else None) (hash (cs ! 0))"
    have r: "select_range hist cs eb eh = Some (?base, ?head)"
      using len by (rule select_range_long)
    have h1: "truthy eh \<longrightarrow> Some ?head = eh" by (simp add: or_default_truthy)
    have h2: "\<not> truthy eh \<longrightarrow> ?head = hash (cs ! 0)" by simp
    have b1: "truthy eb \<longrightarrow> Some ?base = eb" by (simp add: or_default_truthy)
    have b2: "\<not> truthy eb \<and> hist = pre @ e # post
                \<and> (\<forall>x \<in> set pre. \<not> truthy (last_commit_hash x))
                \<and> truthy (last_commit_hash e) \<longrightarrow> Some ?base = last_commit_hash e"
    proof
      assume a: "\<not> truthy eb \<and> hist = pre @ e # post
                \<and> (\<forall>x \<in> set pre. \<not> truthy (last_commit_hash x))
                \<and> truthy (last_commit_hash e)"
      then have "last_analyzed_commit hist = last_commit_hash e"
        using last_analyzed_first[of pre e post] by simp
      with a show "Some ?base = last_commit_hash e" by (simp add: or_default_truthy)
    qed
    have b3: "\<not> truthy eb \<and> (\<forall>x \<in> set hist. \<not> truthy (last_commit_hash x)) \<longrightarrow>
                ?base = hash (last cs)"
      by (simp add: last_analyzed_none)
    from r h1 h2 b1 b2 b3
    show "\<exists>base head. select_range hist cs eb eh = Some (base, head)
           \<and> (truthy eh \<longrightarrow> Some head = eh)
           \<and> (\<not> truthy eh \<longrightarrow> head = hash (cs ! 0))
           \<and> (truthy eb \<longrightarrow> Some base = eb)
           \<and> (\<not> truthy eb \<and> hist = pre @ e # post
                \<and> (\<forall>x \<in> set pre. \<not> truthy (last_commit_hash x))
                \<and> truthy (last_commit_hash e) \<longrightarrow> Some base = last_commit_hash e)
           \<and> (\<not> truthy eb \<and> (\<forall>x \<in> set hist. \<not> truthy (last_commit_hash x)) \<longrightarrow>
                base = hash (last cs))"
      by (intro exI[of _ ?base] exI[of _ ?head] conjI)
  qed
  have empty: "2 \<le> length cs \<longrightarrow>
      select_range [] cs None None = Some (hash (last cs), hash (cs ! 0))"
    by (simp add: select_range_long last_analyzed_commit_def)
  have gate: "gate_range hist cs = select_range hist cs None None"
    by (simp add: gate_range_def select_range_def Let_def)
  from short long empty gate show ?thesis by (intro conjI)
qed

lemma five_len: "length five_commits = 5"
  by (simp add: five_commits_def)

lemma five_last: "hash (last five_commits) = ''a1a1a1a1a1''"
  by (simp add: five_commits_def)

lemma five_first: "hash (five_commits ! 0) = ''e5e5e5e5e5''"
  by (simp add: five_commits_def)

theorem range_selection_witness:
  "select_range [] five_commits None None = Some (''a1a1a1a1a1'', ''e5e5e5e5e5'')
   \<and> gate_range past_audits five_commits = Some (''c3c3c3c3c3'', ''e5e5e5e5e5'')
   \<and> select_range past_audits five_commits (Some ''b2b2b2b2b2'') (Some ''d4d4d4d4d4'')
        = Some (''b2b2b2b2b2'', ''d4d4d4d4d4'')
   \<and> select_range past_audits (take 1 five_commits) None None = None"
proof -
  let ?e0 = "\<lparr>timestamp = ''2024-01-03'', entry_type = ''Unified'', score = JInt 0,
        summary = ''failed'', last_commit_hash = None\<rparr>"
  let ?e1 = "\<lparr>timestamp = ''2024-01-02'', entry_type = ''Unified'', score = JInt 80,
        summary = ''done'', last_commit_hash = Some ''c3c3c3c3c3''\<rparr>"
  let ?e2 = "\<lparr>timestamp = ''2024-01-01'', entry_type = ''Unified'', score = JInt 70,
        summary = ''done'', last_commit_hash = Some ''a1a1a1a1a1''\<rparr>"
  have len: "2 \<le> length five_commits" by (simp add: five_len)
  have split: "past_audits = [?e0] @ ?e1 # [?e2]" by (simp add: past_audits_def)
  have pre: "\<forall>x \<in> set [?e0]. \<not> truthy (last_commit_hash x)" by simp
  have hit: "truthy (last_commit_hash ?e1)" by simp
  note t0 = range_selection[of five_commits "[]" None None "[]" ?e1 "[]"]
  from t0 len have 1: "select_range [] five_commits None None
      = Some (hash (last five_commits), hash (five_commits ! 0))" by blast
  note t1 = range_selection[of five_commits past_audits None None "[?e0]" ?e1 "[?e2]"]
  from t1 len obtain base head where
    r: "select_range past_audits five_commits None None = Some (base, head)"
    and h: "\<not> truthy None \<longrightarrow> head = hash (five_commits ! 0)"
    and b: "\<not> truthy None \<and> past_audits = [?e0] @ ?e1 # [?e2]
                \<and> (\<forall>x \<in> set [?e0]. \<not> truthy (last_commit_hash x))
                \<and> truthy (last_commit_hash ?e1) \<longrightarrow> Some base = last_commit_hash ?e1"
    by blast
  from h have "head = hash (five_commits ! 0)" by simp
  moreover from b split pre hit have "base = ''c3c3c3c3c3''" by simp
  moreover from t1 have "gate_range past_audits five_commits
      = select_range past_audits five_commits None None" by blast
  ultimately have 2: "gate_range past_audits five_commits
      = Some (''c3c3c3c3c3'', hash (five_commits ! 0))" using r by simp
  note t2 = range_selection[of five_commits past_audits "Some ''b2b2b2b2b2''"
      "Some ''d4d4d4d4d4''" "[?e0]" ?e1 "[?e2]"]
  from t2 len obtain base' head' where
    r': "select_range past_audits five_commits (Some ''b2b2b2b2b2'') (Some ''d4d4d4d4d4'')
           = Some (base', head')"
    and h': "truthy (Some ''d4d4d4d4d4'') \<longrightarrow> Some head' = Some ''d4d4d4d4d4''"
    and b': "truthy (Some ''b2b2b2b2b2'') \<longrightarrow> Some base' = Some ''b2b2b2b2b2''"
    by blast
  from r' h' b' have 3: "select_range past_audits five_commits (Some ''b2b2b2b2b2'')
      (Some ''d4d4d4d4d4'') = Some (''b2b2b2b2b2'', ''d4d4d4d4d4'')" by simp
  note t3 = range_selection[of "take 1 five_commits" past_audits None None "[?e0]" ?e1 "[?e2]"]
  have "length (take 1 five_commits) < 2" by (simp add: five_len)
  with t3 have 4: "select_range past_audits (take 1 five_commits) None None = None" by blast
  from 1 2 3 4 show ?thesis by (simp add: five_last five_first)
qed

end
